theory Spec2Isabelle
  imports Main "HOL-Library.Word" "HOL-Library.Multiset" "HOL-Library.Log_Nat"
begin

section \<open>The store: schema, row-level policies and constraints\<close>

text \<open>
  The three tables of the migration script
  \<^verbatim>\<open>supabase/migrations/20250806055456_...sql\<close>. A UUID is an opaque key, a
  \<^verbatim>\<open>TIMESTAMP WITH TIME ZONE\<close> a point on the integer time line, and a JavaScript
  string is its sequence of UTF-16 code units, which is what \<^verbatim>\<open>.length\<close> counts.
\<close>

type_synonym uuid = nat
type_synonym timestamptz = int
type_synonym jsstring = "16 word list"

record polls_row =
  polls_id :: uuid
  polls_title :: jsstring
  polls_user_id :: uuid
  polls_created_at :: timestamptz
  polls_updated_at :: timestamptz

record poll_options_row =
  poll_options_id :: uuid
  poll_options_poll_id :: uuid
  poll_options_option_text :: jsstring
  poll_options_created_at :: timestamptz

record votes_row =
  votes_id :: uuid
  votes_poll_id :: uuid
  votes_option_id :: uuid
  votes_user_id :: uuid
  votes_created_at :: timestamptz

record database =
  polls :: "polls_row list"
  poll_options :: "poll_options_row list"
  votes :: "votes_row list"

definition empty_database :: database where
  "empty_database = \<lparr>polls = [], poll_options = [], votes = []\<rparr>"

text \<open>
  What a request meets on its way that the client does not choose: the identity the
  session token carries (\<^verbatim>\<open>auth.uid()\<close>, absent for an anonymous caller), whether the
  request is lost to a network or service failure (then nothing is applied), the values
  \<^verbatim>\<open>gen_random_uuid()\<close> returns for the rows of the request, \<^verbatim>\<open>now()\<close>, and
  whether the identity provider turns down the tokens of a session exchange.
\<close>

record call_env =
  auth_uid :: "uuid option"
  outage :: bool
  gen_random_uuid :: "nat \<Rightarrow> uuid"
  now :: timestamptz
  session_error :: bool

datatype store_error =
    NetworkError
  | RlsViolation
  | UniqueViolation
  | ForeignKeyViolation
  | MultipleRows

subsection \<open>Votes\<close>

text \<open>
  \<^verbatim>\<open>from('votes').select('id').eq('poll_id', p).eq('user_id', u).maybeSingle()\<close>:
  every row is visible (policy "Anyone can view votes"); no row is \<open>data = null\<close>
  without an error, several rows are an error.
\<close>

definition votes_select_maybeSingle ::
  "call_env \<Rightarrow> uuid \<Rightarrow> uuid \<Rightarrow> database \<Rightarrow> store_error + votes_row option" where
  "votes_select_maybeSingle e p u d =
     (if outage e then Inl NetworkError
      else case filter (\<lambda>v. votes_poll_id v = p \<and> votes_user_id v = u) (votes d) of
             [] \<Rightarrow> Inr None
           | [v] \<Rightarrow> Inr (Some v)
           | _ \<Rightarrow> Inl MultipleRows)"

text \<open>
  \<^verbatim>\<open>from('votes').update({ option_id: o }).eq('id', i)\<close>: policy "Users can update their
  own votes" hides the rows of other users from the statement; the new option must exist
  (\<^verbatim>\<open>REFERENCES public.poll_options(id)\<close>) when a row is written.
\<close>

definition votes_update_option_id ::
  "call_env \<Rightarrow> uuid \<Rightarrow> uuid \<Rightarrow> database \<Rightarrow> store_error option \<times> database" where
  "votes_update_option_id e i o' d =
     (let hit = (\<lambda>v. votes_id v = i \<and> auth_uid e = Some (votes_user_id v)) in
      if outage e then (Some NetworkError, d)
      else if \<not> list_ex hit (votes d) then (None, d)
      else if o' \<notin> set (map poll_options_id (poll_options d)) then (Some ForeignKeyViolation, d)
      else (None, d\<lparr>votes := map (\<lambda>v. if hit v then v\<lparr>votes_option_id := o'\<rparr> else v) (votes d)\<rparr>))"

text \<open>
  \<^verbatim>\<open>from('votes').insert({ poll_id, option_id, user_id })\<close>: policy "Authenticated users
  can vote" (\<^verbatim>\<open>WITH CHECK (auth.uid() = user_id)\<close>), the primary key, the constraint
  \<^verbatim>\<open>UNIQUE(poll_id, user_id)\<close>, and the two foreign keys.
\<close>

definition votes_insert ::
  "call_env \<Rightarrow> uuid \<Rightarrow> uuid \<Rightarrow> uuid \<Rightarrow> database \<Rightarrow> store_error option \<times> database" where
  "votes_insert e p o' u d =
     (let row = \<lparr>votes_id = gen_random_uuid e 0, votes_poll_id = p, votes_option_id = o',
                 votes_user_id = u, votes_created_at = now e\<rparr> in
      if outage e then (Some NetworkError, d)
      else if auth_uid e \<noteq> Some u then (Some RlsViolation, d)
      else if votes_id row \<in> set (map votes_id (votes d)) then (Some UniqueViolation, d)
      else if list_ex (\<lambda>v. votes_poll_id v = p \<and> votes_user_id v = u) (votes d)
        then (Some UniqueViolation, d)
      else if p \<notin> set (map polls_id (polls d)) then (Some ForeignKeyViolation, d)
      else if o' \<notin> set (map poll_options_id (poll_options d)) then (Some ForeignKeyViolation, d)
      else (None, d\<lparr>votes := votes d @ [row]\<rparr>))"

text \<open>
  \<^verbatim>\<open>from('votes').delete().eq('poll_id', p)\<close>: policy "Users can delete their own votes"
  restricts the statement to the caller's rows.
\<close>

definition votes_delete ::
  "call_env \<Rightarrow> uuid \<Rightarrow> database \<Rightarrow> store_error option \<times> database" where
  "votes_delete e p d =
     (if outage e then (Some NetworkError, d)
      else (None, d\<lparr>votes := filter (\<lambda>v. \<not> (votes_poll_id v = p \<and> auth_uid e = Some (votes_user_id v)))
                                  (votes d)\<rparr>))"

text \<open>
  \<^verbatim>\<open>from('votes').select('*', { count: 'exact', head: true }).eq('option_id', o)\<close>.
\<close>

definition votes_count :: "call_env \<Rightarrow> uuid \<Rightarrow> database \<Rightarrow> store_error + nat" where
  "votes_count e o' d =
     (if outage e then Inl NetworkError
      else Inr (length (filter (\<lambda>v. votes_option_id v = o') (votes d))))"

subsection \<open>Poll options\<close>

text \<open>
  Policy "Poll creators can manage options": the caller owns the poll the option
  belongs to.
\<close>

definition manages_option :: "call_env \<Rightarrow> database \<Rightarrow> uuid \<Rightarrow> bool" where
  "manages_option e d p =
     list_ex (\<lambda>q. polls_id q = p \<and> auth_uid e = Some (polls_user_id q)) (polls d)"

text \<open>
  \<^verbatim>\<open>from('poll_options').insert(rows)\<close>, one statement: every row passes the policy
  (which implies that its poll exists) and gets a fresh primary key, or no row is
  inserted.
\<close>

definition poll_options_insert ::
  "call_env \<Rightarrow> (uuid \<times> jsstring) list \<Rightarrow> database \<Rightarrow> store_error option \<times> database" where
  "poll_options_insert e rows d =
     (let new = map (\<lambda>(k, (p, t)). \<lparr>poll_options_id = gen_random_uuid e k, poll_options_poll_id = p,
                                    poll_options_option_text = t, poll_options_created_at = now e\<rparr>)
                    (enumerate 0 rows) in
      if outage e then (Some NetworkError, d)
      else if \<not> list_all (\<lambda>(p, t). manages_option e d p) rows then (Some RlsViolation, d)
      else if \<not> distinct (map poll_options_id (poll_options d @ new)) then (Some UniqueViolation, d)
      else (None, d\<lparr>poll_options := poll_options d @ new\<rparr>))"

text \<open>
  \<^verbatim>\<open>from('poll_options').delete().eq('poll_id', p)\<close>; the votes that reference a deleted
  option go with it (\<^verbatim>\<open>ON DELETE CASCADE\<close>).
\<close>

definition poll_options_delete ::
  "call_env \<Rightarrow> uuid \<Rightarrow> database \<Rightarrow> store_error option \<times> database" where
  "poll_options_delete e p d =
     (let gone = (\<lambda>x. poll_options_poll_id x = p \<and> manages_option e d (poll_options_poll_id x));
          ids = map poll_options_id (filter gone (poll_options d)) in
      if outage e then (Some NetworkError, d)
      else (None, d\<lparr>poll_options := filter (\<lambda>x. \<not> gone x) (poll_options d),
                     votes := filter (\<lambda>v. votes_option_id v \<notin> set ids) (votes d)\<rparr>))"

subsection \<open>Polls\<close>

text \<open>
  \<^verbatim>\<open>from('polls').insert({ title, user_id }).select().single()\<close>: policy "Users can
  create their own polls" and the primary key; the reply is the inserted row.
\<close>

definition polls_insert ::
  "call_env \<Rightarrow> jsstring \<Rightarrow> uuid \<Rightarrow> database \<Rightarrow> (store_error + polls_row) \<times> database" where
  "polls_insert e t u d =
     (let row = \<lparr>polls_id = gen_random_uuid e 0, polls_title = t, polls_user_id = u,
                 polls_created_at = now e, polls_updated_at = now e\<rparr> in
      if outage e then (Inl NetworkError, d)
      else if auth_uid e \<noteq> Some u then (Inl RlsViolation, d)
      else if polls_id row \<in> set (map polls_id (polls d)) then (Inl UniqueViolation, d)
      else (Inr row, d\<lparr>polls := polls d @ [row]\<rparr>))"

text \<open>
  \<^verbatim>\<open>from('polls').delete().eq('id', p).eq('user_id', u)\<close>: policy "Users can delete their
  own polls"; the options and votes of a deleted poll go with it.
\<close>

definition polls_delete ::
  "call_env \<Rightarrow> uuid \<Rightarrow> uuid \<Rightarrow> database \<Rightarrow> store_error option \<times> database" where
  "polls_delete e p u d =
     (let gone = (\<lambda>q. polls_id q = p \<and> polls_user_id q = u \<and> auth_uid e = Some (polls_user_id q));
          pids = map polls_id (filter gone (polls d));
          oids = map poll_options_id
                   (filter (\<lambda>x. poll_options_poll_id x \<in> set pids) (poll_options d)) in
      if outage e then (Some NetworkError, d)
      else (None, d\<lparr>polls := filter (\<lambda>q. \<not> gone q) (polls d),
                     poll_options := filter (\<lambda>x. poll_options_poll_id x \<notin> set pids) (poll_options d),
                     votes := filter (\<lambda>v. votes_poll_id v \<notin> set pids \<and> votes_option_id v \<notin> set oids)
                                     (votes d)\<rparr>))"

text \<open>
  \<^verbatim>\<open>from('polls').select(`id, title, created_at, user_id, poll_options (id, option_text)`)
  .order('created_at', { ascending: false })\<close>: every poll, newest first, each with the
  options that reference it. The order among polls of equal creation time is the
  store's choice.
\<close>

definition polls_select ::
  "call_env \<Rightarrow> database \<Rightarrow> store_error + (polls_row \<times> poll_options_row list) list" where
  "polls_select e d =
     (if outage e then Inl NetworkError
      else Inr (map (\<lambda>q. (q, filter (\<lambda>x. poll_options_poll_id x = polls_id q) (poll_options d)))
                    (rev (sort_key polls_created_at (polls d)))))"


section \<open>The client's view of the outside world\<close>

text \<open>
  Every call the client makes on the backend SDK, in the order it is issued.
\<close>

datatype request =
    VotesSelect uuid uuid
  | VotesUpdate uuid uuid
  | VotesInsert uuid uuid uuid
  | VotesDelete uuid
  | VotesCount uuid
  | PollOptionsInsert "(uuid \<times> jsstring) list"
  | PollOptionsDelete uuid
  | PollsInsert jsstring uuid
  | PollsDelete uuid uuid
  | PollsSelect
  | AuthSetSession jsstring jsstring

datatype description = Text string | Message store_error | Decoded jsstring

datatype toast = Toast (toast_title: string) (toast_description: description) (toast_variant: "string option")

text \<open>
  The world a handler runs in: the store, the circumstances of the requests to come
  (the \<open>k\<close>-th request issued meets \<open>env k\<close>), and what the client has done so far:
  the requests it issued, the notices it showed, the routes it navigated to and the
  callbacks of its parent component it invoked.
\<close>

record world =
  db :: database
  env :: "nat \<Rightarrow> call_env"
  requests :: "request list"
  toasts :: "toast list"
  navigated :: "string list"
  called :: "string list"

definition query :: "request \<Rightarrow> (call_env \<Rightarrow> database \<Rightarrow> 'a) \<Rightarrow> world \<Rightarrow> 'a \<times> world" where
  "query r f w = (f (env w (length (requests w))) (db w), w\<lparr>requests := requests w @ [r]\<rparr>)"

definition mutate ::
  "request \<Rightarrow> (call_env \<Rightarrow> database \<Rightarrow> 'a \<times> database) \<Rightarrow> world \<Rightarrow> 'a \<times> world" where
  "mutate r f w =
     (let (a, d) = f (env w (length (requests w))) (db w)
      in (a, w\<lparr>db := d, requests := requests w @ [r]\<rparr>))"

definition toast :: "toast \<Rightarrow> world \<Rightarrow> world" where
  "toast t w = w\<lparr>toasts := toasts w @ [t]\<rparr>"

definition navigate :: "string \<Rightarrow> world \<Rightarrow> world" where
  "navigate r w = w\<lparr>navigated := navigated w @ [r]\<rparr>"

definition call :: "string \<Rightarrow> world \<Rightarrow> world" where
  "call f w = w\<lparr>called := called w @ [f]\<rparr>"

text \<open>The effect of one request on the store, whoever sends it.\<close>

fun apply_request :: "call_env \<Rightarrow> request \<Rightarrow> database \<Rightarrow> database" where
  "apply_request e (VotesSelect p u) d = d"
| "apply_request e (VotesUpdate i o') d = snd (votes_update_option_id e i o' d)"
| "apply_request e (VotesInsert p o' u) d = snd (votes_insert e p o' u d)"
| "apply_request e (VotesDelete p) d = snd (votes_delete e p d)"
| "apply_request e (VotesCount o') d = d"
| "apply_request e (PollOptionsInsert rows) d = snd (poll_options_insert e rows d)"
| "apply_request e (PollOptionsDelete p) d = snd (poll_options_delete e p d)"
| "apply_request e (PollsInsert t u) d = snd (polls_insert e t u d)"
| "apply_request e (PollsDelete p u) d = snd (polls_delete e p u d)"
| "apply_request e PollsSelect d = d"
| "apply_request e (AuthSetSession a r) d = d"

fun apply_requests :: "(call_env \<times> request) list \<Rightarrow> database \<Rightarrow> database" where
  "apply_requests [] d = d"
| "apply_requests ((e, r) # rs) d = apply_requests rs (apply_request e r d)"

section \<open>PollCard: voting and deleting\<close>

record user =
  user_id :: uuid

record PollOption =
  PollOption_id :: uuid
  PollOption_option_text :: jsstring
  PollOption_vote_count :: "nat option"

record Poll =
  Poll_id :: uuid
  Poll_title :: jsstring
  Poll_created_at :: timestamptz
  Poll_user_id :: uuid
  Poll_poll_options :: "PollOption list"

record PollCard =
  isVoting :: bool
  isDeleting :: bool
  userVote :: "uuid option"

text \<open>
  \<^verbatim>\<open>const { data: existingVote } = await supabase.from('votes').select('id')...\<close>: the
  error of the reply is not read, so a failed lookup looks like "no vote yet".
\<close>

definition data_of :: "store_error + 'a option \<Rightarrow> 'a option" where
  "data_of reply = (case reply of Inl err \<Rightarrow> None | Inr data \<Rightarrow> data)"

definition handleVote :: "user option \<Rightarrow> Poll \<Rightarrow> uuid \<Rightarrow> PollCard \<times> world \<Rightarrow> PollCard \<times> world" where
  "handleVote usr poll optionId sw =
     (let (s, w) = sw in
      case usr of
        None \<Rightarrow> (s, w)
      | Some u \<Rightarrow>
          if isVoting s then (s, w)
          else
            let s1 = s\<lparr>isVoting := True\<rparr>;
                (reply, w1) = query (VotesSelect (Poll_id poll) (user_id u))
                                (\<lambda>e. votes_select_maybeSingle e (Poll_id poll) (user_id u)) w;
                (error, w2) =
                  (case data_of reply of
                     Some existingVote \<Rightarrow>
                       mutate (VotesUpdate (votes_id existingVote) optionId)
                         (\<lambda>e. votes_update_option_id e (votes_id existingVote) optionId) w1
                   | None \<Rightarrow>
                       mutate (VotesInsert (Poll_id poll) optionId (user_id u))
                         (\<lambda>e. votes_insert e (Poll_id poll) optionId (user_id u)) w1);
                (s2, w3) =
                  (case error of
                     None \<Rightarrow>
                       (s1\<lparr>userVote := Some optionId\<rparr>,
                        toast (Toast ''Vote recorded!''
                                 (Text ''Your vote has been recorded successfully.'') None) w2)
                   | Some err \<Rightarrow>
                       (s1, toast (Toast ''Error voting'' (Message err) (Some ''destructive'')) w2))
            in (s2\<lparr>isVoting := False\<rparr>, w3))"




section \<open>CreatePollForm\<close>

record option_field =
  option_field_text :: jsstring

record CreatePollForm =
  title :: jsstring
  options :: "option_field list"

datatype path = Title | Options | OptionText nat

datatype issue = Issue (issue_path: path) (issue_message: string)

text \<open>
  \<^verbatim>\<open>z.string().min(lo, m1).max(hi, m2)\<close>: both checks run, on the number of UTF-16
  code units.
\<close>

definition z_string :: "path \<Rightarrow> nat \<Rightarrow> string \<Rightarrow> nat \<Rightarrow> string \<Rightarrow> jsstring \<Rightarrow> issue list" where
  "z_string p lo m1 hi m2 s =
     (if length s < lo then [Issue p m1] else []) @ (if hi < length s then [Issue p m2] else [])"

definition createPollSchema :: "CreatePollForm \<Rightarrow> issue list" where
  "createPollSchema data =
     z_string Title 1 ''Poll title is required'' 200 ''Title must be less than 200 characters''
       (title data)
     @ (if length (options data) < 2 then [Issue Options ''At least 2 options are required''] else [])
     @ (if 10 < length (options data) then [Issue Options ''Maximum 10 options allowed''] else [])
     @ concat (map (\<lambda>(k, x). z_string (OptionText k) 1 ''Option text is required''
                                 100 ''Option must be less than 100 characters''
                                 (option_field_text x))
                   (enumerate 0 (options data)))"

record form =
  isLoading :: bool
  form_values :: CreatePollForm
  form_errors :: "issue list"

definition defaultValues :: CreatePollForm where
  "defaultValues = \<lparr>title = [], options = [\<lparr>option_field_text = []\<rparr>, \<lparr>option_field_text = []\<rparr>]\<rparr>"

definition handleSubmit :: "user option \<Rightarrow> CreatePollForm \<Rightarrow> form \<times> world \<Rightarrow> form \<times> world" where
  "handleSubmit usr data sw =
     (let (s, w) = sw in
      case usr of
        None \<Rightarrow> (s, w)
      | Some u \<Rightarrow>
          let s1 = s\<lparr>isLoading := True\<rparr>;
              (pollReply, w1) = mutate (PollsInsert (title data) (user_id u))
                                  (\<lambda>e. polls_insert e (title data) (user_id u)) w;
              (thrown, w2) =
                (case pollReply of
                   Inl pollError \<Rightarrow> (Some pollError, w1)
                 | Inr pollData \<Rightarrow>
                     (let rows = map (\<lambda>x. (polls_id pollData, option_field_text x)) (options data)
                      in mutate (PollOptionsInsert rows) (\<lambda>e. poll_options_insert e rows) w1));
              (s2, w3) =
                (case thrown of
                   None \<Rightarrow>
                     (s1\<lparr>form_values := defaultValues, form_errors := []\<rparr>,
                      call ''onSuccess''
                        (toast (Toast ''Poll created!''
                                  (Text ''Your poll has been created successfully.'') None) w2))
                 | Some err \<Rightarrow>
                     (s1, toast (Toast ''Error creating poll'' (Message err) (Some ''destructive'')) w2))
          in (s2\<lparr>isLoading := False\<rparr>, w3))"

text \<open>
  \<^verbatim>\<open><form onSubmit={form.handleSubmit(handleSubmit)}>\<close> with
  \<^verbatim>\<open>resolver: zodResolver(createPollSchema)\<close>: the form library runs the schema over the
  current values and calls \<^verbatim>\<open>handleSubmit\<close> only when there is no issue; otherwise
  the issues become the form's field errors.
\<close>

definition onSubmit :: "user option \<Rightarrow> form \<times> world \<Rightarrow> form \<times> world" where
  "onSubmit usr sw =
     (let (s, w) = sw; issues = createPollSchema (form_values s) in
      if issues = [] then handleSubmit usr (form_values s) (s\<lparr>form_errors := []\<rparr>, w)
      else (s\<lparr>form_errors := issues\<rparr>, w))"

section \<open>Dashboard: listing and tally\<close>

record Dashboard =
  Dashboard_polls :: "Poll list"
  Dashboard_isLoading :: bool

text \<open>
  One count request per option, in the order of the options;
  \<^verbatim>\<open>vote_count: count || 0\<close> reads a failed count as zero.
\<close>

fun count_options :: "poll_options_row list \<Rightarrow> world \<Rightarrow> PollOption list \<times> world" where
  "count_options [] w = ([], w)"
| "count_options (x # xs) w =
     (let (reply, w1) = query (VotesCount (poll_options_id x))
                          (\<lambda>e. votes_count e (poll_options_id x)) w;
          option = \<lparr>PollOption_id = poll_options_id x,
                    PollOption_option_text = poll_options_option_text x,
                    PollOption_vote_count = Some (case reply of Inl err \<Rightarrow> 0 | Inr count' \<Rightarrow> count')\<rparr>;
          (rest, w2) = count_options xs w1
      in (option # rest, w2))"

fun count_polls :: "(polls_row \<times> poll_options_row list) list \<Rightarrow> world \<Rightarrow> Poll list \<times> world" where
  "count_polls [] w = ([], w)"
| "count_polls ((q, xs) # qs) w =
     (let (optionsWithVotes, w1) = count_options xs w;
          poll = \<lparr>Poll_id = polls_id q, Poll_title = polls_title q,
                  Poll_created_at = polls_created_at q, Poll_user_id = polls_user_id q,
                  Poll_poll_options = optionsWithVotes\<rparr>;
          (rest, w2) = count_polls qs w1
      in (poll # rest, w2))"

definition fetchPolls :: "Dashboard \<times> world \<Rightarrow> Dashboard \<times> world" where
  "fetchPolls sw =
     (let (s, w) = sw;
          (reply, w1) = query PollsSelect polls_select w
      in case reply of
           Inl pollsError \<Rightarrow>
             (s\<lparr>Dashboard_isLoading := False\<rparr>,
              toast (Toast ''Error loading polls'' (Message pollsError) (Some ''destructive'')) w1)
         | Inr pollsData \<Rightarrow>
             (let (pollsWithVotes, w2) = count_polls pollsData w1
              in (s\<lparr>Dashboard_polls := pollsWithVotes, Dashboard_isLoading := False\<rparr>, w2)))"


section \<open>ResetPassword: the recovery link\<close>

text \<open>An ASCII string literal of the source, as code units.\<close>

definition js :: "string \<Rightarrow> jsstring" where
  "js s = map of_char s"

subsection \<open>\<^verbatim>\<open>decodeURIComponent\<close>\<close>

text \<open>
  The built-in of the language (ECMAScript, abstract operation \<^verbatim>\<open>Decode\<close> with an
  empty set of preserved escapes). A \<^verbatim>\<open>%\<close> must be followed by two hexadecimal
  digits; an octet with leading one bits opens a UTF-8 sequence whose other octets must
  be escapes too and which must encode a code point; anything else throws
  \<^verbatim>\<open>URIError\<close>.
\<close>

datatype js_error = URIError

datatype 'a promise = Fulfilled 'a | Rejected js_error

definition hex_value :: "16 word \<Rightarrow> nat option" where
  "hex_value c =
     (let n = unat c in
      if 48 \<le> n \<and> n \<le> 57 then Some (n - 48)
      else if 65 \<le> n \<and> n \<le> 70 then Some (n - 55)
      else if 97 \<le> n \<and> n \<le> 102 then Some (n - 87)
      else None)"

text \<open>\<^verbatim>\<open>ParseHexOctet\<close> on the two code units after a \<^verbatim>\<open>%\<close>.\<close>

definition ParseHexOctet :: "jsstring \<Rightarrow> nat option" where
  "ParseHexOctet s =
     (case s of
        a # b # rest \<Rightarrow>
          (case (hex_value a, hex_value b) of
             (Some x, Some y) \<Rightarrow> Some (16 * x + y)
           | _ \<Rightarrow> None)
      | _ \<Rightarrow> None)"

text \<open>The number of leading one bits of an octet.\<close>

definition leading_ones :: "nat \<Rightarrow> nat" where
  "leading_ones B =
     (if B < 128 then 0 else if B < 192 then 1 else if B < 224 then 2
      else if B < 240 then 3 else if B < 248 then 4 else 5)"

text \<open>The \<open>j\<close> escapes \<^verbatim>\<open>%XX\<close> that continue a sequence.\<close>

fun continuation_octets :: "nat \<Rightarrow> jsstring \<Rightarrow> nat list option" where
  "continuation_octets 0 s = Some []"
| "continuation_octets (Suc j) s =
     (case s of
        [] \<Rightarrow> None
      | c # cs \<Rightarrow>
          if c \<noteq> 37 then None
          else (case ParseHexOctet cs of
                  None \<Rightarrow> None
                | Some B \<Rightarrow> map_option ((#) B) (continuation_octets j (drop 2 cs))))"

text \<open>
  The code point a UTF-8 sequence of two to four octets encodes, if it is one: the
  continuation octets are \<^verbatim>\<open>10xxxxxx\<close>, the encoding is the shortest one, and the
  value is neither a surrogate nor beyond \<^verbatim>\<open>U+10FFFF\<close>.
\<close>

definition utf8_code_point :: "nat list \<Rightarrow> nat option" where
  "utf8_code_point Octets =
     (case Octets of
        B # rest \<Rightarrow>
          (let n = length Octets;
               V = foldl (\<lambda>v b. 64 * v + b mod 64) (B mod 2 ^ (7 - n)) rest;
               least = (if n = 2 then 128 else if n = 3 then 2048 else 65536)
           in if list_all (\<lambda>b. 128 \<le> b \<and> b < 192) rest \<and> least \<le> V \<and> V \<le> 1114111
                 \<and> \<not> (55296 \<le> V \<and> V \<le> 57343)
              then Some V else None)
      | [] \<Rightarrow> None)"

definition UTF16EncodeCodePoint :: "nat \<Rightarrow> jsstring" where
  "UTF16EncodeCodePoint V =
     (if V < 65536 then [of_nat V]
      else [of_nat (55296 + (V - 65536) div 1024), of_nat (56320 + (V - 65536) mod 1024)])"

fun decodeURIComponent :: "jsstring \<Rightarrow> js_error + jsstring" where
  "decodeURIComponent [] = Inr []"
| "decodeURIComponent (c # cs) =
     (if c \<noteq> 37 then map_sum id ((#) c) (decodeURIComponent cs)
      else case ParseHexOctet cs of
             None \<Rightarrow> Inl URIError
           | Some B \<Rightarrow>
               (let n = leading_ones B in
                if n = 0 then map_sum id ((#) (of_nat B)) (decodeURIComponent (drop 2 cs))
                else if n = 1 \<or> 4 < n then Inl URIError
                else (case continuation_octets (n - 1) (drop 2 cs) of
                        None \<Rightarrow> Inl URIError
                      | Some Octets \<Rightarrow>
                          (case utf8_code_point (B # Octets) of
                             None \<Rightarrow> Inl URIError
                           | Some V \<Rightarrow>
                               map_sum id ((@) (UTF16EncodeCodePoint V))
                                 (decodeURIComponent (drop (2 + 3 * (n - 1)) cs))))))"

subsection \<open>The effect that runs when the page opens\<close>

type_synonym URLSearchParams = "(jsstring \<times> jsstring) list"

text \<open>\<^verbatim>\<open>hashParams.get(name)\<close>: the first value of that name, or \<^verbatim>\<open>null\<close>.\<close>

definition get :: "URLSearchParams \<Rightarrow> string \<Rightarrow> jsstring option" where
  "get hashParams name = map_of hashParams (js name)"

text \<open>
  \<^verbatim>\<open>init\<close> takes the parameters of the URL fragment as \<^verbatim>\<open>URLSearchParams\<close> has
  parsed them (that is, percent-decoded once already). A string is falsy when it is
  \<^verbatim>\<open>null\<close> or empty. An exception leaves the \<^verbatim>\<open>async\<close> function as a rejected
  promise that nobody handles.
\<close>

definition init :: "URLSearchParams \<Rightarrow> world \<Rightarrow> unit promise \<times> world" where
  "init hashParams w =
     (let error = get hashParams ''error'';
          errorCode = get hashParams ''error_code'';
          errorDescription = get hashParams ''error_description'';
          missing = (\<lambda>w'. navigate ''/''
                      (toast (Toast ''Invalid reset link''
                                (Text ''Missing credentials. Please request a new reset link.'')
                                (Some ''destructive'')) w'))
      in if error = Some (js ''access_denied'') \<and> errorCode = Some (js ''otp_expired'') then
           (case decodeURIComponent
                   (case errorDescription of
                      None \<Rightarrow> js ''Reset link is invalid or expired.''
                    | Some d \<Rightarrow> if d = [] then js ''Reset link is invalid or expired.'' else d) of
              Inl thrown \<Rightarrow> (Rejected thrown, w)
            | Inr decoded \<Rightarrow>
                (Fulfilled (),
                 navigate ''/'' (toast (Toast ''Link expired'' (Decoded decoded) (Some ''destructive'')) w)))
         else
           (case (get hashParams ''access_token'', get hashParams ''refresh_token'') of
              (Some accessToken, Some refreshToken) \<Rightarrow>
                if accessToken = [] \<or> refreshToken = [] then (Fulfilled (), missing w)
                else
                  (let (sessionError, w1) =
                         query (AuthSetSession accessToken refreshToken)
                           (\<lambda>e d. outage e \<or> session_error e) w
                   in if sessionError then
                        (Fulfilled (),
                         navigate ''/''
                           (toast (Toast ''Session error''
                                     (Text ''Failed to authenticate. Try again or request a new reset link.'')
                                     (Some ''destructive'')) w1))
                      else (Fulfilled (), w1))
            | _ \<Rightarrow> (Fulfilled (), missing w)))"

section \<open>The constraints of the schema\<close>

text \<open>\<^verbatim>\<open>UNIQUE(poll_id, user_id)\<close> on the votes table.\<close>

definition votes_unique :: "database \<Rightarrow> bool" where
  "votes_unique d \<longleftrightarrow> distinct (map (\<lambda>v. (votes_poll_id v, votes_user_id v)) (votes d))"

text \<open>
  All of them: the three primary keys, the uniqueness constraint, and the foreign keys
  of options and votes.
\<close>

definition constraints :: "database \<Rightarrow> bool" where
  "constraints d \<longleftrightarrow>
     distinct (map polls_id (polls d)) \<and>
     distinct (map poll_options_id (poll_options d)) \<and>
     distinct (map votes_id (votes d)) \<and>
     votes_unique d \<and>
     list_all (\<lambda>x. poll_options_poll_id x \<in> set (map polls_id (polls d))) (poll_options d) \<and>
     list_all (\<lambda>v. votes_poll_id v \<in> set (map polls_id (polls d))
                  \<and> votes_option_id v \<in> set (map poll_options_id (poll_options d))) (votes d)"

text \<open>The vote rows of one user on one poll.\<close>

definition votes_of :: "uuid \<Rightarrow> uuid \<Rightarrow> database \<Rightarrow> votes_row list" where
  "votes_of p u d = filter (\<lambda>v. votes_poll_id v = p \<and> votes_user_id v = u) (votes d)"

text \<open>
  A sequence of vote attempts, each with its user, poll, option and the state of the
  card it is made from; only the world is carried from one to the next.
\<close>

fun vote_attempts :: "(user option \<times> Poll \<times> uuid \<times> PollCard) list \<Rightarrow> world \<Rightarrow> world" where
  "vote_attempts [] w = w"
| "vote_attempts ((usr, poll, optionId, s) # rest) w =
     vote_attempts rest (snd (handleVote usr poll optionId (s, w)))"

section \<open>Numbers of the language\<close>

text \<open>
  A finite Number is the rational it stands for. The arithmetic operators compute the
  exact result and round it to the nearest binary64 value, ties to the even significand
  (IEEE 754 \<^verbatim>\<open>roundTiesToEven\<close>): 53 significant bits, and no bit below \<open>2\<^sup>-\<^sup>1\<^sup>0\<^sup>7\<^sup>4\<close>.
  The rounding is the language's for results of magnitude below \<open>2\<^sup>1\<^sup>0\<^sup>2\<^sup>4\<close>, beyond which
  a Number is infinite.
\<close>

text \<open>\<open>\<lfloor>log\<^sub>2 x\<rfloor>\<close> for a positive \<open>x\<close>.\<close>

definition floor_log2 :: "rat \<Rightarrow> int" where
  "floor_log2 x =
     (let (a, b) = quotient_of x; d = bitlen a - bitlen b
      in if 2 powi d \<le> x then d else d - 1)"

definition round_ties_even :: "rat \<Rightarrow> int" where
  "round_ties_even m =
     (let f = \<lfloor>m\<rfloor>; r = m - of_int f
      in if r < 1 / 2 then f else if 1 / 2 < r then f + 1 else if even f then f else f + 1)"

definition binary64 :: "rat \<Rightarrow> rat" where
  "binary64 x =
     (if x = 0 then 0
      else let q = max (floor_log2 \<bar>x\<bar> - 52) (- 1074)
           in of_int (round_ties_even (x / 2 powi q)) * 2 powi q)"

text \<open>The decimal digits of a natural number.\<close>

fun digits :: "nat \<Rightarrow> string" where
  "digits n =
     (if n < 10 then [char_of (48 + n)] else digits (n div 10) @ [char_of (48 + n mod 10)])"

text \<open>
  \<^verbatim>\<open>x.toFixed(1)\<close> for a finite \<open>x\<close> of magnitude below \<open>10\<^sup>2\<^sup>1\<close>: the integer \<open>n\<close>
  with \<open>n / 10\<close> nearest to \<open>x\<close>, the larger one of two, written with one digit after
  the point.
\<close>

definition toFixed1 :: "rat \<Rightarrow> string" where
  "toFixed1 x =
     (let n = nat \<lfloor>\<bar>x\<bar> * 10 + 1 / 2\<rfloor>
      in (if x < 0 then ''-'' else []) @ digits (n div 10) @ ''.'' @ digits (n mod 10))"

section \<open>PollCard: the tally on the card\<close>

text \<open>
  Vote counts are numbers of rows. The sums below are the sums of the language as long
  as they stay below \<open>2\<^sup>5\<^sup>3\<close>, where its numbers hold every integer exactly.
\<close>

text \<open>\<^verbatim>\<open>option.vote_count || 0\<close>.\<close>

definition or_zero :: "nat option \<Rightarrow> nat" where
  "or_zero vote_count = (case vote_count of None \<Rightarrow> 0 | Some n \<Rightarrow> n)"

text \<open>\<^verbatim>\<open>poll.poll_options.reduce((sum, option) => sum + (option.vote_count || 0), 0)\<close>.\<close>

definition totalVotes :: "Poll \<Rightarrow> nat" where
  "totalVotes poll =
     foldl (\<lambda>sum option. sum + or_zero (PollOption_vote_count option)) 0 (Poll_poll_options poll)"

text \<open>
  \<^verbatim>\<open>const percentage = totalVotes > 0 ? (option.vote_count || 0) / totalVotes * 100 : 0\<close>.
\<close>

definition percentage :: "Poll \<Rightarrow> PollOption \<Rightarrow> rat" where
  "percentage poll option =
     (if 0 < totalVotes poll
      then binary64 (binary64 (of_nat (or_zero (PollOption_vote_count option)) / of_nat (totalVotes poll))
                     * 100)
      else 0)"

text \<open>\<^verbatim>\<open>{percentage.toFixed(1)}%\<close>, the text on the option's button.\<close>

definition shown :: "Poll \<Rightarrow> PollOption \<Rightarrow> string" where
  "shown poll option = toFixed1 (percentage poll option) @ ''%''"

section \<open>Example data\<close>

text \<open>
  A store with one poll of user 7 and its two options, requests that nothing disturbs,
  and the components in their initial state.
\<close>

definition calm :: "uuid \<Rightarrow> nat \<Rightarrow> call_env" where
  "calm u k = \<lparr>auth_uid = Some u, outage = False, gen_random_uuid = (\<lambda>i. 100 + 10 * k + i),
              now = int k, session_error = False\<rparr>"

definition example_database :: database where
  "example_database =
     \<lparr>polls = [\<lparr>polls_id = 1, polls_title = js ''Tea or coffee?'', polls_user_id = 7,
                 polls_created_at = 0, polls_updated_at = 0\<rparr>],
      poll_options = [\<lparr>poll_options_id = 2, poll_options_poll_id = 1,
                        poll_options_option_text = js ''Tea'', poll_options_created_at = 0\<rparr>,
                      \<lparr>poll_options_id = 3, poll_options_poll_id = 1,
                        poll_options_option_text = js ''Coffee'', poll_options_created_at = 0\<rparr>],
      votes = []\<rparr>"

definition example_world :: world where
  "example_world = \<lparr>db = example_database, env = calm 7, requests = [], toasts = [],
                     navigated = [], called = []\<rparr>"

definition example_poll :: Poll where
  "example_poll =
     \<lparr>Poll_id = 1, Poll_title = js ''Tea or coffee?'', Poll_created_at = 0, Poll_user_id = 7,
      Poll_poll_options =
        [\<lparr>PollOption_id = 2, PollOption_option_text = js ''Tea'', PollOption_vote_count = Some 3\<rparr>,
         \<lparr>PollOption_id = 3, PollOption_option_text = js ''Coffee'', PollOption_vote_count = Some 1\<rparr>]\<rparr>"

definition example_card :: PollCard where
  "example_card = \<lparr>isVoting = False, isDeleting = False, userVote = None\<rparr>"

definition example_form :: form where
  "example_form =
     \<lparr>isLoading = False,
      form_values = \<lparr>title = [], options = [\<lparr>option_field_text = js ''Tea''\<rparr>]\<rparr>,
      form_errors = []\<rparr>"

definition example_votes :: "votes_row list" where
  "example_votes =
     [\<lparr>votes_id = 4, votes_poll_id = 1, votes_option_id = 2, votes_user_id = 7, votes_created_at = 1\<rparr>,
      \<lparr>votes_id = 5, votes_poll_id = 1, votes_option_id = 2, votes_user_id = 8, votes_created_at = 2\<rparr>,
      \<lparr>votes_id = 6, votes_poll_id = 1, votes_option_id = 3, votes_user_id = 9, votes_created_at = 3\<rparr>]"

definition example_dashboard :: Dashboard where
  "example_dashboard = \<lparr>Dashboard_polls = [], Dashboard_isLoading = True\<rparr>"

text \<open>Requests of user \<open>u\<close> of which the \<open>j\<close>-th is lost.\<close>

definition stormy :: "nat \<Rightarrow> uuid \<Rightarrow> nat \<Rightarrow> call_env" where
  "stormy j u k = (calm u k)\<lparr>outage := (k = j)\<rparr>"

text \<open>
  The store with the three votes, a newer poll of user 8 with one option, and a vote of
  user 7 on it.
\<close>

definition example_two_polls :: database where
  "example_two_polls =
     \<lparr>polls = polls example_database @
                [\<lparr>polls_id = 10, polls_title = js ''Cats or dogs?'', polls_user_id = 8,
                  polls_created_at = 5, polls_updated_at = 5\<rparr>],
      poll_options = poll_options example_database @
                [\<lparr>poll_options_id = 11, poll_options_poll_id = 10,
                  poll_options_option_text = js ''Cats'', poll_options_created_at = 5\<rparr>],
      votes = example_votes @
                [\<lparr>votes_id = 12, votes_poll_id = 10, votes_option_id = 11, votes_user_id = 7,
                  votes_created_at = 6\<rparr>]\<rparr>"


section \<open>What a handler leaves behind\<close>

lemma query_simps [simp]:
  "db (snd (query r f w)) = db w"
  "requests (snd (query r f w)) = requests w @ [r]"
  "toasts (snd (query r f w)) = toasts w"
  "navigated (snd (query r f w)) = navigated w"
  "called (snd (query r f w)) = called w"
  "env (snd (query r f w)) = env w"
  "fst (query r f w) = f (env w (length (requests w))) (db w)"
  by (simp_all add: query_def)

lemma mutate_simps [simp]:
  "db (snd (mutate r f w)) = snd (f (env w (length (requests w))) (db w))"
  "requests (snd (mutate r f w)) = requests w @ [r]"
  "toasts (snd (mutate r f w)) = toasts w"
  "navigated (snd (mutate r f w)) = navigated w"
  "called (snd (mutate r f w)) = called w"
  "env (snd (mutate r f w)) = env w"
  "fst (mutate r f w) = fst (f (env w (length (requests w))) (db w))"
  by (simp_all add: mutate_def split_beta)

lemma toast_simps [simp]:
  "db (toast t w) = db w"
  "requests (toast t w) = requests w"
  "toasts (toast t w) = toasts w @ [t]"
  "navigated (toast t w) = navigated w"
  "called (toast t w) = called w"
  "env (toast t w) = env w"
  by (simp_all add: toast_def)

lemma navigate_simps [simp]:
  "db (navigate r w) = db w"
  "requests (navigate r w) = requests w"
  "toasts (navigate r w) = toasts w"
  "navigated (navigate r w) = navigated w @ [r]"
  "called (navigate r w) = called w"
  "env (navigate r w) = env w"
  by (simp_all add: navigate_def)

lemma call_simps [simp]:
  "db (call c w) = db w"
  "requests (call c w) = requests w"
  "toasts (call c w) = toasts w"
  "navigated (call c w) = navigated w"
  "called (call c w) = called w @ [c]"
  "env (call c w) = env w"
  by (simp_all add: call_def)

section \<open>Guards at the entry of the handlers\<close>

text \<open>
  Claim C9. \<^verbatim>\<open>handleVote\<close> called while no user is signed in, or while an earlier
  vote of the card is still in flight (\<^verbatim>\<open>isVoting\<close>), returns at once: the card's
  state, and with it the recorded \<^verbatim>\<open>userVote\<close>, is unchanged, and so is the world:
  no request is issued and no notice is shown.
\<close>

theorem handleVote_guard:
  "usr = None \<or> isVoting s \<Longrightarrow>
     handleVote usr poll optionId (s, w) = (s, w)
   \<and> requests (snd (handleVote usr poll optionId (s, w))) = requests w
   \<and> toasts (snd (handleVote usr poll optionId (s, w))) = toasts w
   \<and> userVote (fst (handleVote usr poll optionId (s, w))) = userVote s"
  by (auto simp: handleVote_def split: option.splits)

theorem handleVote_guard_witness:
  "handleVote None example_poll 2 (example_card, example_world) = (example_card, example_world)
   \<and> handleVote (Some \<lparr>user_id = 7\<rparr>) example_poll 2 (example_card\<lparr>isVoting := True\<rparr>, example_world)
       = (example_card\<lparr>isVoting := True\<rparr>, example_world)"
  using handleVote_guard [of None "example_card" example_poll 2 example_world]
    handleVote_guard [of "Some \<lparr>user_id = 7\<rparr>" "example_card\<lparr>isVoting := True\<rparr>" example_poll 2
      example_world]
  by simp

text \<open>
  Claim C10. \<^verbatim>\<open>handleSubmit\<close> of the poll-creation form called while no user is signed
  in returns at once: no request reaches the store, no notice is shown, and the form
  is as it was.
\<close>

theorem handleSubmit_unauthenticated:
  "handleSubmit None data (s, w) = (s, w)
   \<and> requests (snd (handleSubmit None data (s, w))) = requests w
   \<and> toasts (snd (handleSubmit None data (s, w))) = toasts w"
  by (simp add: handleSubmit_def)

section \<open>Validation of a new poll\<close>

lemma z_string_Nil: "z_string p lo m1 hi m2 s = [] \<longleftrightarrow> lo \<le> length s \<and> length s \<le> hi"
  by (auto simp: z_string_def)

lemma option_issues_Nil:
  "concat (map (\<lambda>(k, x). z_string (P k) lo m1 hi m2 (f x)) (enumerate n xs)) = [] \<longleftrightarrow>
     (\<forall>x \<in> set xs. lo \<le> length (f x) \<and> length (f x) \<le> hi)"
  by (induction xs arbitrary: n) (auto simp: z_string_Nil)

lemma createPollSchema_Nil:
  "createPollSchema data = [] \<longleftrightarrow>
     1 \<le> length (title data) \<and> length (title data) \<le> 200 \<and>
     2 \<le> length (options data) \<and> length (options data) \<le> 10 \<and>
     (\<forall>x \<in> set (options data). 1 \<le> length (option_field_text x) \<and> length (option_field_text x) \<le> 100)"
  unfolding createPollSchema_def append_is_Nil_conv option_issues_Nil z_string_Nil by auto

text \<open>
  Claim C4. A submission of the poll-creation form whose title has fewer than 1 or more
  than 200 code units, or that has fewer than 2 or more than 10 options, or one of whose
  option texts has fewer than 1 or more than 100 code units, is rejected by the schema:
  the form gets the issues as field errors, \<^verbatim>\<open>handleSubmit\<close> does not run, and the
  world is unchanged, so no request is issued. (A string of more than 200 characters has
  more than 200 code units, and the empty string has none.)
\<close>

theorem onSubmit_rejects:
  assumes "length (title (form_values s)) < 1 \<or> 200 < length (title (form_values s))
         \<or> length (options (form_values s)) < 2 \<or> 10 < length (options (form_values s))
         \<or> (\<exists>x \<in> set (options (form_values s)).
               length (option_field_text x) < 1 \<or> 100 < length (option_field_text x))"
  shows "createPollSchema (form_values s) \<noteq> []
       \<and> onSubmit usr (s, w) = (s\<lparr>form_errors := createPollSchema (form_values s)\<rparr>, w)
       \<and> requests (snd (onSubmit usr (s, w))) = requests w"
proof -
  from assms have "createPollSchema (form_values s) \<noteq> []"
    unfolding createPollSchema_Nil by (auto simp: not_le)
  then show ?thesis by (simp add: onSubmit_def Let_def)
qed

theorem onSubmit_rejects_witness:
  "length (title (form_values example_form)) < 1
   \<and> length (options (form_values example_form)) < 2
   \<and> requests (snd (onSubmit (Some \<lparr>user_id = 7\<rparr>) (example_form, example_world))) = []"
  using onSubmit_rejects [of example_form "Some \<lparr>user_id = 7\<rparr>" example_world]
  by (simp add: example_form_def example_world_def)

section \<open>Creating a poll: a failure half way\<close>

lemma polls_insert_Inr:
  "polls_insert e t u d = (Inr row, d') \<Longrightarrow>
     d' = d\<lparr>polls := polls d @ [row]\<rparr> \<and> polls_id row \<notin> set (map polls_id (polls d))
     \<and> polls_user_id row = u \<and> polls_title row = t"
  by (auto simp: polls_insert_def Let_def split: if_splits)

lemma poll_options_insert_failed:
  "fst (poll_options_insert e rows d) = Some err \<Longrightarrow> snd (poll_options_insert e rows d) = d"
  by (auto simp: poll_options_insert_def Let_def split: if_splits)

text \<open>
  Claim C5. The poll insert of \<^verbatim>\<open>handleSubmit\<close> succeeds and the options insert after
  it fails (the store holds no option of an unknown poll, as its foreign key demands).
  Then the handler has issued these two inserts and nothing else, so no delete of the
  poll; the store is the old one plus the new poll row, which has no option; the only
  notice is the error notice; and the parent's \<^verbatim>\<open>onSuccess\<close> is not called.
\<close>

theorem handleSubmit_no_rollback:
  assumes fk: "list_all (\<lambda>x. poll_options_poll_id x \<in> set (map polls_id (polls (db w))))
                 (poll_options (db w))"
    and poll: "polls_insert (env w (length (requests w))) (title data) (user_id u) (db w)
                 = (Inr pollData, d1)"
    and opts: "fst (poll_options_insert (env w (Suc (length (requests w))))
                     (map (\<lambda>x. (polls_id pollData, option_field_text x)) (options data)) d1)
                 = Some err"
  shows "let (s', w') = handleSubmit (Some u) data (s, w) in
           requests w' = requests w @
             [PollsInsert (title data) (user_id u),
              PollOptionsInsert (map (\<lambda>x. (polls_id pollData, option_field_text x)) (options data))]
         \<and> db w' = (db w)\<lparr>polls := polls (db w) @ [pollData]\<rparr>
         \<and> filter (\<lambda>x. poll_options_poll_id x = polls_id pollData) (poll_options (db w')) = []
         \<and> toasts w' = toasts w @ [Toast ''Error creating poll'' (Message err) (Some ''destructive'')]
         \<and> called w' = called w
         \<and> s' = s\<lparr>isLoading := False\<rparr>"
proof -
  from polls_insert_Inr [OF poll]
  have d1: "d1 = (db w)\<lparr>polls := polls (db w) @ [pollData]\<rparr>"
    and new: "polls_id pollData \<notin> set (map polls_id (polls (db w)))" by simp_all
  from fk new have none: "filter (\<lambda>x. poll_options_poll_id x = polls_id pollData) (poll_options (db w)) = []"
    unfolding filter_empty_conv list_all_iff by metis
  show ?thesis
    using opts poll_options_insert_failed [OF opts] none
    by (simp add: handleSubmit_def poll mutate_def toast_def split_beta Let_def d1)
qed


theorem handleSubmit_no_rollback_witness:
  "(let w = example_world\<lparr>env := (\<lambda>k. if k = 1 then (calm 7 k)\<lparr>outage := True\<rparr> else calm 7 k)\<rparr>;
        data = \<lparr>title = js ''Cats or dogs?'',
                options = [\<lparr>option_field_text = js ''Cats''\<rparr>, \<lparr>option_field_text = js ''Dogs''\<rparr>]\<rparr>;
        (s', w') = handleSubmit (Some \<lparr>user_id = 7\<rparr>) data (example_form, w)
    in map polls_id (polls (db w')) = [1, 100]
     \<and> filter (\<lambda>x. poll_options_poll_id x = 100) (poll_options (db w')) = []
     \<and> requests w' = [PollsInsert (js ''Cats or dogs?'') 7,
                       PollOptionsInsert [(100, js ''Cats''), (100, js ''Dogs'')]]
     \<and> toasts w' = [Toast ''Error creating poll'' (Message NetworkError) (Some ''destructive'')])"
  using handleSubmit_no_rollback
    [of "example_world\<lparr>env := (\<lambda>k. if k = 1 then (calm 7 k)\<lparr>outage := True\<rparr> else calm 7 k)\<rparr>"
        "\<lparr>title = js ''Cats or dogs?'',
          options = [\<lparr>option_field_text = js ''Cats''\<rparr>, \<lparr>option_field_text = js ''Dogs''\<rparr>]\<rparr>"
        "\<lparr>user_id = 7\<rparr>"
        "\<lparr>polls_id = 100, polls_title = js ''Cats or dogs?'', polls_user_id = 7,
          polls_created_at = 0, polls_updated_at = 0\<rparr>"
        "example_database\<lparr>polls := polls example_database @
           [\<lparr>polls_id = 100, polls_title = js ''Cats or dogs?'', polls_user_id = 7,
             polls_created_at = 0, polls_updated_at = 0\<rparr>]\<rparr>"
        NetworkError example_form]
  by (simp add: split_beta Let_def example_world_def example_database_def calm_def
      polls_insert_def poll_options_insert_def)

section \<open>One vote per poll and user\<close>

lemma key_map_option_id:
  "map (\<lambda>v. (votes_poll_id v, votes_user_id v))
     (map (\<lambda>v. if P v then v\<lparr>votes_option_id := o'\<rparr> else v) xs) =
   map (\<lambda>v. (votes_poll_id v, votes_user_id v)) xs"
  by (induction xs) auto

lemma votes_unique_update:
  "votes_unique d \<Longrightarrow> votes_unique (snd (votes_update_option_id e i o' d))"
  by (simp add: votes_unique_def votes_update_option_id_def Let_def key_map_option_id del: map_map)

lemma votes_unique_insert:
  "votes_unique d \<Longrightarrow> votes_unique (snd (votes_insert e p o' u d))"
  by (auto simp: votes_unique_def votes_insert_def Let_def list_ex_iff)

lemma votes_unique_apply_request:
  "votes_unique d \<Longrightarrow> votes_unique (apply_request e r d)"
proof (cases r)
  case (VotesDelete p)
  then show "votes_unique d \<Longrightarrow> ?thesis"
    by (simp add: votes_delete_def votes_unique_def distinct_map_filter)
next
  case (PollOptionsInsert rows)
  then show "votes_unique d \<Longrightarrow> ?thesis"
    by (simp add: poll_options_insert_def votes_unique_def Let_def)
next
  case (PollOptionsDelete p)
  then show "votes_unique d \<Longrightarrow> ?thesis"
    by (simp add: poll_options_delete_def votes_unique_def Let_def distinct_map_filter)
next
  case (PollsInsert t u)
  then show "votes_unique d \<Longrightarrow> ?thesis"
    by (simp add: polls_insert_def votes_unique_def Let_def)
next
  case (PollsDelete p u)
  then show "votes_unique d \<Longrightarrow> ?thesis"
    by (simp add: polls_delete_def votes_unique_def Let_def distinct_map_filter)
qed (simp_all add: votes_unique_update votes_unique_insert)

lemma votes_unique_apply_requests:
  "votes_unique d \<Longrightarrow> votes_unique (apply_requests rs d)"
  by (induction rs arbitrary: d) (auto simp: votes_unique_apply_request)

lemma handleVote_db:
  "db (snd (handleVote usr poll optionId (s, w))) =
     (case usr of
        None \<Rightarrow> db w
      | Some u \<Rightarrow>
          if isVoting s then db w
          else (case data_of (votes_select_maybeSingle (env w (length (requests w)))
                               (Poll_id poll) (user_id u) (db w)) of
                  Some v \<Rightarrow> apply_request (env w (Suc (length (requests w))))
                              (VotesUpdate (votes_id v) optionId) (db w)
                | None \<Rightarrow> apply_request (env w (Suc (length (requests w))))
                            (VotesInsert (Poll_id poll) optionId (user_id u)) (db w)))"
  by (simp add: handleVote_def split_beta Let_def split: option.splits)

lemma votes_unique_handleVote:
  "votes_unique (db w) \<Longrightarrow> votes_unique (db (snd (handleVote usr poll optionId (s, w))))"
  unfolding handleVote_db by (simp add: votes_unique_update votes_unique_insert split: option.splits)

lemma votes_unique_vote_attempts:
  "votes_unique (db w) \<Longrightarrow> votes_unique (db (vote_attempts as w))"
  by (induction as w rule: vote_attempts.induct) (auto simp: votes_unique_handleVote)

lemma distinct_key_filter:
  "distinct (map f xs) \<Longrightarrow> length (filter (\<lambda>x. f x = k) xs) \<le> Suc 0"
  by (induction xs) (auto simp: filter_empty_conv image_iff)

lemma votes_unique_at_most_one:
  "votes_unique d \<Longrightarrow> length (votes_of p u d) \<le> 1"
  using distinct_key_filter [of "\<lambda>v. (votes_poll_id v, votes_user_id v)" "votes d" "(p, u)"]
  by (simp add: votes_unique_def votes_of_def)

text \<open>
  Claim C1. Whatever vote attempts are made, by whichever users on whichever polls, and
  under whatever circumstances (lost requests, failed lookups, foreign sessions), the
  votes table holds at most one row for each pair of poll and user, provided it did so
  before. The same holds after any sequence of requests at all, from any number of
  clients in any interleaving: it is the store that keeps the invariant, by rejecting
  the insert that would break \<^verbatim>\<open>UNIQUE(poll_id, user_id)\<close>, and not the lookup the
  client makes first.
\<close>

theorem one_vote_per_poll_and_user:
  assumes "votes_unique (db w)"
  shows "length (votes_of p u (db (vote_attempts attempts w))) \<le> 1
       \<and> length (votes_of p u (apply_requests rs (db w))) \<le> 1"
proof
  from assms have "votes_unique (db (vote_attempts attempts w))"
    by (rule votes_unique_vote_attempts)
  then show "length (votes_of p u (db (vote_attempts attempts w))) \<le> 1"
    by (rule votes_unique_at_most_one)
next
  from assms have "votes_unique (apply_requests rs (db w))"
    by (rule votes_unique_apply_requests)
  then show "length (votes_of p u (apply_requests rs (db w))) \<le> 1"
    by (rule votes_unique_at_most_one)
qed

theorem one_vote_per_poll_and_user_witness:
  "votes_unique (db example_world)
   \<and> length (votes_of 1 7 (db (vote_attempts
         [(Some \<lparr>user_id = 7\<rparr>, example_poll, 2, example_card),
          (Some \<lparr>user_id = 7\<rparr>, example_poll, 3, example_card)] example_world))) \<le> 1
   \<and> length (votes_of 1 7 (apply_requests
         [(calm 7 0, VotesSelect 1 7), (calm 7 1, VotesSelect 1 7),
          (calm 7 2, VotesInsert 1 2 7), (calm 7 3, VotesInsert 1 3 7)] (db example_world))) \<le> 1"
  using one_vote_per_poll_and_user [of example_world 1 7
      "[(Some \<lparr>user_id = 7\<rparr>, example_poll, 2, example_card),
        (Some \<lparr>user_id = 7\<rparr>, example_poll, 3, example_card)]"
      "[(calm 7 0, VotesSelect 1 7), (calm 7 1, VotesSelect 1 7),
        (calm 7 2, VotesInsert 1 2 7), (calm 7 3, VotesInsert 1 3 7)]"]
  by (simp add: votes_unique_def example_world_def example_database_def)

text \<open>
  Two first votes of one user that both found no row: the store takes the first insert
  and rejects the second.
\<close>

lemma racing_first_votes:
  "map votes_option_id
     (votes (apply_requests
        [(calm 7 0, VotesSelect 1 7), (calm 7 1, VotesSelect 1 7),
         (calm 7 2, VotesInsert 1 2 7), (calm 7 3, VotesInsert 1 3 7)] example_database)) = [2]
   \<and> fst (votes_insert (calm 7 3) 1 3 7
            (apply_requests [(calm 7 2, VotesInsert 1 2 7)] example_database)) = Some UniqueViolation"
  by (simp add: votes_insert_def example_database_def calm_def Let_def)

section \<open>The store keeps its constraints\<close>

text \<open>
  The primary keys, the uniqueness constraint and the foreign keys hold in the empty
  store and after every request, whatever the request and whoever sends it; so they
  hold in every store the handlers can meet.
\<close>

lemma constraints_empty: "constraints empty_database"
  by (simp add: constraints_def votes_unique_def empty_database_def)

lemma id_map_option_id:
  "map votes_id (map (\<lambda>v. if P v then v\<lparr>votes_option_id := o'\<rparr> else v) xs) = map votes_id xs"
  by (induction xs) auto

lemma constraints_votes_update:
  assumes "constraints d"
  shows "constraints (snd (votes_update_option_id e i o' d))"
proof (cases "outage e \<or> \<not> list_ex (\<lambda>v. votes_id v = i \<and> auth_uid e = Some (votes_user_id v)) (votes d)
    \<or> o' \<notin> set (map poll_options_id (poll_options d))")
  case True
  then have "snd (votes_update_option_id e i o' d) = d"
    by (auto simp: votes_update_option_id_def Let_def)
  with assms show ?thesis by simp
next
  case False
  let ?upd = "\<lambda>v. if votes_id v = i \<and> auth_uid e = Some (votes_user_id v)
                   then v\<lparr>votes_option_id := o'\<rparr> else v"
  from False have d': "snd (votes_update_option_id e i o' d) = d\<lparr>votes := map ?upd (votes d)\<rparr>"
    by (simp add: votes_update_option_id_def Let_def)
  from False have o': "o' \<in> set (map poll_options_id (poll_options d))" by simp
  have "distinct (map votes_id (map ?upd (votes d)))"
    using assms unfolding id_map_option_id by (simp add: constraints_def)
  moreover have "votes_unique (d\<lparr>votes := map ?upd (votes d)\<rparr>)"
    using votes_unique_update [of d e i o'] assms d' by (simp add: constraints_def)
  moreover have "list_all (\<lambda>v. votes_poll_id v \<in> set (map polls_id (polls d))
                  \<and> votes_option_id v \<in> set (map poll_options_id (poll_options d))) (map ?upd (votes d))"
    using assms o' by (auto simp: constraints_def list_all_iff)
  ultimately show ?thesis
    using assms unfolding d' by (simp add: constraints_def del: map_map)
qed

lemma constraints_votes_insert:
  "constraints d \<Longrightarrow> constraints (snd (votes_insert e p o' u d))"
  using votes_unique_insert [of d e p o' u]
  by (auto simp: constraints_def votes_insert_def Let_def list_all_iff)

lemma constraints_votes_delete:
  "constraints d \<Longrightarrow> constraints (snd (votes_delete e p d))"
  by (auto simp: constraints_def votes_delete_def votes_unique_def list_all_iff distinct_map_filter)

lemma constraints_poll_options_insert:
  assumes "constraints d"
  shows "constraints (snd (poll_options_insert e rows d))"
proof (cases "fst (poll_options_insert e rows d)")
  case (Some err)
  then have "snd (poll_options_insert e rows d) = d" by (rule poll_options_insert_failed)
  with assms show ?thesis by simp
next
  case None
  let ?new = "map (\<lambda>(k, (p, t)). \<lparr>poll_options_id = gen_random_uuid e k, poll_options_poll_id = p,
                                    poll_options_option_text = t, poll_options_created_at = now e\<rparr>)
                  (enumerate 0 rows)"
  from None have d': "snd (poll_options_insert e rows d) = d\<lparr>poll_options := poll_options d @ ?new\<rparr>"
    and rls: "list_all (\<lambda>(p, t). manages_option e d p) rows"
    and pk: "distinct (map poll_options_id (poll_options d @ ?new))"
    by (auto simp: poll_options_insert_def Let_def split: if_splits)
  have "poll_options_poll_id x \<in> set (map polls_id (polls d))" if "x \<in> set ?new" for x
  proof -
    from that obtain k p t where "(k, (p, t)) \<in> set (enumerate 0 rows)" "poll_options_poll_id x = p"
      by auto
    then have "k < length rows" "rows ! k = (p, t)" by (simp_all add: in_set_enumerate_eq)
    then have "(p, t) \<in> set rows" using nth_mem [of k rows] by simp
    with rls have "manages_option e d p" by (auto simp: list_all_iff)
    then obtain q where "q \<in> set (polls d)" "polls_id q = p"
      by (auto simp: manages_option_def list_ex_iff)
    then have "p \<in> polls_id ` set (polls d)" by blast
    with \<open>poll_options_poll_id x = p\<close> show ?thesis by simp
  qed
  then have "list_all (\<lambda>x. poll_options_poll_id x \<in> set (map polls_id (polls d))) ?new"
    unfolding list_all_iff by blast
  with assms pk show ?thesis
    unfolding d' by (auto simp: constraints_def votes_unique_def list_all_iff)
qed

lemma still_referenced:
  "k \<in> f ` set xs \<Longrightarrow> k \<notin> f ` set (filter P xs) \<Longrightarrow> k \<in> f ` set (filter (\<lambda>x. \<not> P x) xs)"
  by auto

lemma constraints_poll_options_delete:
  assumes "constraints d"
  shows "constraints (snd (poll_options_delete e p d))"
proof (cases "outage e")
  case True
  with assms show ?thesis by (simp add: poll_options_delete_def Let_def)
next
  case False
  let ?gone = "\<lambda>x. poll_options_poll_id x = p \<and> manages_option e d (poll_options_poll_id x)"
  let ?ids = "map poll_options_id (filter ?gone (poll_options d))"
  let ?options = "filter (\<lambda>x. \<not> ?gone x) (poll_options d)"
  let ?votes = "filter (\<lambda>v. votes_option_id v \<notin> set ?ids) (votes d)"
  from False have d': "snd (poll_options_delete e p d) = d\<lparr>poll_options := ?options, votes := ?votes\<rparr>"
    by (simp add: poll_options_delete_def Let_def)
  have "votes_option_id v \<in> set (map poll_options_id ?options)" if "v \<in> set ?votes" for v
  proof -
    from that assms have "votes_option_id v \<in> poll_options_id ` set (poll_options d)"
      by (auto simp: constraints_def list_all_iff)
    moreover from that have "votes_option_id v \<notin> poll_options_id ` set (filter ?gone (poll_options d))"
      by simp
    ultimately show ?thesis unfolding set_map by (rule still_referenced)
  qed
  moreover have "votes_poll_id v \<in> set (map polls_id (polls d))" if "v \<in> set ?votes" for v
    using that assms by (auto simp: constraints_def list_all_iff)
  ultimately have "list_all (\<lambda>v. votes_poll_id v \<in> set (map polls_id (polls d))
        \<and> votes_option_id v \<in> set (map poll_options_id ?options)) ?votes"
    unfolding list_all_iff by blast
  moreover have "list_all (\<lambda>x. poll_options_poll_id x \<in> set (map polls_id (polls d))) ?options"
    using assms by (auto simp: constraints_def list_all_iff)
  moreover have "distinct (map poll_options_id ?options)" "distinct (map votes_id ?votes)"
    "distinct (map (\<lambda>v. (votes_poll_id v, votes_user_id v)) ?votes)"
    using assms by (simp_all add: constraints_def votes_unique_def distinct_map_filter)
  ultimately show ?thesis
    using assms unfolding d' by (simp add: constraints_def votes_unique_def)
qed

lemma constraints_polls_insert:
  "constraints d \<Longrightarrow> constraints (snd (polls_insert e t u d))"
  by (auto simp: constraints_def polls_insert_def Let_def votes_unique_def list_all_iff)

lemma constraints_polls_delete:
  assumes "constraints d"
  shows "constraints (snd (polls_delete e p u d))"
proof (cases "outage e")
  case True
  with assms show ?thesis by (simp add: polls_delete_def Let_def)
next
  case False
  let ?gone = "\<lambda>q. polls_id q = p \<and> polls_user_id q = u \<and> auth_uid e = Some (polls_user_id q)"
  let ?pids = "map polls_id (filter ?gone (polls d))"
  let ?lost = "\<lambda>x. poll_options_poll_id x \<in> set ?pids"
  let ?oids = "map poll_options_id (filter ?lost (poll_options d))"
  let ?polls = "filter (\<lambda>q. \<not> ?gone q) (polls d)"
  let ?options = "filter (\<lambda>x. \<not> ?lost x) (poll_options d)"
  let ?votes = "filter (\<lambda>v. votes_poll_id v \<notin> set ?pids \<and> votes_option_id v \<notin> set ?oids) (votes d)"
  from False have d': "snd (polls_delete e p u d)
      = d\<lparr>polls := ?polls, poll_options := ?options, votes := ?votes\<rparr>"
    by (simp add: polls_delete_def Let_def)
  have opt: "poll_options_poll_id x \<in> set (map polls_id ?polls)" if "x \<in> set ?options" for x
  proof -
    from that assms have "poll_options_poll_id x \<in> polls_id ` set (polls d)"
      by (auto simp: constraints_def list_all_iff)
    moreover from that have "poll_options_poll_id x \<notin> polls_id ` set (filter ?gone (polls d))"
      by simp
    ultimately show ?thesis unfolding set_map by (rule still_referenced)
  qed
  have vote: "votes_poll_id v \<in> set (map polls_id ?polls)
      \<and> votes_option_id v \<in> set (map poll_options_id ?options)" if "v \<in> set ?votes" for v
  proof
    from that assms have "votes_poll_id v \<in> polls_id ` set (polls d)"
      by (auto simp: constraints_def list_all_iff)
    moreover from that have "votes_poll_id v \<notin> polls_id ` set (filter ?gone (polls d))"
      by simp
    ultimately show "votes_poll_id v \<in> set (map polls_id ?polls)"
      unfolding set_map by (rule still_referenced)
    from that assms have "votes_option_id v \<in> poll_options_id ` set (poll_options d)"
      by (auto simp: constraints_def list_all_iff)
    moreover from that have "votes_option_id v \<notin> poll_options_id ` set (filter ?lost (poll_options d))"
      by simp
    ultimately show "votes_option_id v \<in> set (map poll_options_id ?options)"
      unfolding set_map by (rule still_referenced)
  qed
  have "list_all (\<lambda>x. poll_options_poll_id x \<in> set (map polls_id ?polls)) ?options"
    unfolding list_all_iff using opt by blast
  moreover have "list_all (\<lambda>v. votes_poll_id v \<in> set (map polls_id ?polls)
        \<and> votes_option_id v \<in> set (map poll_options_id ?options)) ?votes"
    unfolding list_all_iff using vote by blast
  moreover have "distinct (map polls_id ?polls)" "distinct (map poll_options_id ?options)"
    "distinct (map votes_id ?votes)"
    "distinct (map (\<lambda>v. (votes_poll_id v, votes_user_id v)) ?votes)"
    using assms by (simp_all add: constraints_def votes_unique_def distinct_map_filter)
  ultimately show ?thesis
    unfolding d' by (simp add: constraints_def votes_unique_def)
qed

lemma constraints_apply_request:
  "constraints d \<Longrightarrow> constraints (apply_request e r d)"
  by (cases r)
    (simp_all add: constraints_votes_update constraints_votes_insert constraints_votes_delete
      constraints_poll_options_insert constraints_poll_options_delete constraints_polls_insert
      constraints_polls_delete)

lemma constraints_apply_requests:
  "constraints d \<Longrightarrow> constraints (apply_requests rs d)"
  by (induction rs arbitrary: d) (auto simp: constraints_apply_request)

lemma constraints_reachable: "constraints (apply_requests rs empty_database)"
  by (simp add: constraints_apply_requests constraints_empty)

section \<open>Casting a vote and voting again\<close>

lemma select_Some:
  "data_of (votes_select_maybeSingle e p u d) = Some v \<longleftrightarrow> \<not> outage e \<and> votes_of p u d = [v]"
  by (auto simp: data_of_def votes_select_maybeSingle_def votes_of_def split: list.splits)

lemma select_None_unique:
  "votes_unique d \<Longrightarrow> \<not> outage e \<Longrightarrow>
   data_of (votes_select_maybeSingle e p u d) = None \<longleftrightarrow> votes_of p u d = []"
  using votes_unique_at_most_one [of d p u]
  by (auto simp: data_of_def votes_select_maybeSingle_def votes_of_def split: list.splits)

lemma list_ex_votes_of:
  "list_ex (\<lambda>v. votes_poll_id v = p \<and> votes_user_id v = u) (votes d) \<longleftrightarrow> votes_of p u d \<noteq> []"
  by (auto simp: votes_of_def list_ex_iff filter_empty_conv)

lemma votes_insert_accepted:
  assumes "\<not> outage e" "auth_uid e = Some u" "gen_random_uuid e 0 \<notin> set (map votes_id (votes d))"
    "votes_of p u d = []" "p \<in> set (map polls_id (polls d))"
    "o' \<in> set (map poll_options_id (poll_options d))"
  shows "votes_insert e p o' u d =
           (None, d\<lparr>votes := votes d @ [\<lparr>votes_id = gen_random_uuid e 0, votes_poll_id = p,
                        votes_option_id = o', votes_user_id = u, votes_created_at = now e\<rparr>]\<rparr>)"
  using assms by (simp add: votes_insert_def list_ex_votes_of Let_def)

lemma votes_update_accepted:
  assumes "\<not> outage e" "auth_uid e = Some (votes_user_id v)" "v \<in> set (votes d)"
    "o' \<in> set (map poll_options_id (poll_options d))"
  shows "votes_update_option_id e (votes_id v) o' d =
           (None, d\<lparr>votes := map (\<lambda>x. if votes_id x = votes_id v \<and> auth_uid e = Some (votes_user_id x)
                                       then x\<lparr>votes_option_id := o'\<rparr> else x) (votes d)\<rparr>)"
  using assms by (auto simp: votes_update_option_id_def list_ex_iff Let_def)

lemma votes_of_append:
  "votes_of p u (d\<lparr>votes := votes d @ [row]\<rparr>) =
     votes_of p u d @ (if votes_poll_id row = p \<and> votes_user_id row = u then [row] else [])"
  by (simp add: votes_of_def)

lemma votes_of_map_option_id:
  "votes_of p u (d\<lparr>votes := map (\<lambda>x. if P x then x\<lparr>votes_option_id := o'\<rparr> else x) (votes d)\<rparr>) =
     map (\<lambda>x. if P x then x\<lparr>votes_option_id := o'\<rparr> else x) (votes_of p u d)"
  by (simp add: votes_of_def filter_map comp_def if_distrib cong: if_cong)

lemma votes_of_member: "votes_of p u d = v # vs \<Longrightarrow>
  v \<in> set (votes d) \<and> votes_poll_id v = p \<and> votes_user_id v = u"
proof -
  assume "votes_of p u d = v # vs"
  then have "v \<in> set (votes_of p u d)" by simp
  then show ?thesis by (simp add: votes_of_def)
qed

text \<open>
  One vote that nothing disturbs: the lookup, then the update of the row found or the
  insert of a new row; afterwards the user has exactly one row on the poll, with the
  chosen option.
\<close>

lemma handleVote_recorded:
  assumes uniq: "votes_unique (db w)"
    and idle: "\<not> isVoting s"
    and e0: "\<not> outage (env w (length (requests w)))"
    and e1: "\<not> outage (env w (Suc (length (requests w))))"
            "auth_uid (env w (Suc (length (requests w)))) = Some (user_id u)"
    and opt: "optionId \<in> set (map poll_options_id (poll_options (db w)))"
    and poll: "Poll_id poll \<in> set (map polls_id (polls (db w)))"
    and fresh: "votes_of (Poll_id poll) (user_id u) (db w) = [] \<Longrightarrow>
                gen_random_uuid (env w (Suc (length (requests w)))) 0 \<notin> set (map votes_id (votes (db w)))"
  defines "r \<equiv> handleVote (Some u) poll optionId (s, w)"
  shows "votes_of (Poll_id poll) (user_id u) (db (snd r)) =
           (case votes_of (Poll_id poll) (user_id u) (db w) of
              [] \<Rightarrow> [\<lparr>votes_id = gen_random_uuid (env w (Suc (length (requests w)))) 0,
                       votes_poll_id = Poll_id poll, votes_option_id = optionId,
                       votes_user_id = user_id u,
                       votes_created_at = now (env w (Suc (length (requests w))))\<rparr>]
            | v # _ \<Rightarrow> [v\<lparr>votes_option_id := optionId\<rparr>])
    \<and> requests (snd r) = requests w @
           [VotesSelect (Poll_id poll) (user_id u),
            (case votes_of (Poll_id poll) (user_id u) (db w) of
               [] \<Rightarrow> VotesInsert (Poll_id poll) optionId (user_id u)
             | v # _ \<Rightarrow> VotesUpdate (votes_id v) optionId)]
    \<and> fst r = s\<lparr>userVote := Some optionId\<rparr>
    \<and> env (snd r) = env w
    \<and> polls (db (snd r)) = polls (db w) \<and> poll_options (db (snd r)) = poll_options (db w)
    \<and> toasts (snd r) = toasts w @ [Toast ''Vote recorded!'' (Text ''Your vote has been recorded successfully.'') None]"
proof (cases "votes_of (Poll_id poll) (user_id u) (db w)")
  case Nil
  with uniq e0 have sel: "data_of (votes_select_maybeSingle (env w (length (requests w)))
      (Poll_id poll) (user_id u) (db w)) = None"
    by (simp add: select_None_unique)
  note ins = votes_insert_accepted [OF e1 fresh [OF Nil] Nil poll opt]
  show ?thesis
    unfolding r_def using idle Nil
    by (simp add: handleVote_def sel ins split_beta mutate_def query_def toast_def votes_of_append)
next
  case (Cons v vs)
  with votes_unique_at_most_one [OF uniq, of "Poll_id poll" "user_id u"]
  have one: "votes_of (Poll_id poll) (user_id u) (db w) = [v]" by simp
  with e0 have sel: "data_of (votes_select_maybeSingle (env w (length (requests w)))
      (Poll_id poll) (user_id u) (db w)) = Some v"
    by (simp add: select_Some)
  from votes_of_member [OF Cons] have v: "v \<in> set (votes (db w))" "votes_user_id v = user_id u"
    by simp_all
  from e1 v have "auth_uid (env w (Suc (length (requests w)))) = Some (votes_user_id v)" by simp
  note upd = votes_update_accepted [OF e1(1) this v(1) opt]
  show ?thesis
    unfolding r_def using idle one e1 v
    by (simp add: handleVote_def sel upd split_beta mutate_def query_def toast_def
        votes_of_map_option_id)
qed


text \<open>
  Claim C2. A signed-in user votes for option \<open>A\<close> and then for option \<open>B\<close> of a poll,
  both options and the poll exist, and nothing disturbs the four requests (no outage,
  the session is the user's, a first row gets a fresh key). Each vote first looks up the
  row of (poll, user); the first vote updates the row found or, if there is none,
  inserts one; the second vote finds that row and updates its option. In the end the
  user has exactly one vote row on the poll, it references \<open>B\<close>, and the card shows
  \<open>B\<close> as the user's vote.
\<close>

theorem handleVote_revote:
  assumes uniq: "votes_unique (db w)"
    and idle: "\<not> isVoting s"
    and calm: "\<forall>k<4. \<not> outage (env w (length (requests w) + k))
                    \<and> auth_uid (env w (length (requests w) + k)) = Some (user_id u)"
    and A: "A \<in> set (map poll_options_id (poll_options (db w)))"
    and B: "B \<in> set (map poll_options_id (poll_options (db w)))"
    and poll: "Poll_id poll \<in> set (map polls_id (polls (db w)))"
    and fresh: "votes_of (Poll_id poll) (user_id u) (db w) = [] \<Longrightarrow>
                gen_random_uuid (env w (Suc (length (requests w)))) 0 \<notin> set (map votes_id (votes (db w)))"
  shows "let (s1, w1) = handleVote (Some u) poll A (s, w);
             (s2, w2) = handleVote (Some u) poll B (s1, w1)
         in (\<exists>v. votes_of (Poll_id poll) (user_id u) (db w2) = [v] \<and> votes_option_id v = B
               \<and> requests w2 = requests w @
                   [VotesSelect (Poll_id poll) (user_id u),
                    (case votes_of (Poll_id poll) (user_id u) (db w) of
                       [] \<Rightarrow> VotesInsert (Poll_id poll) A (user_id u)
                     | v0 # _ \<Rightarrow> VotesUpdate (votes_id v0) A),
                    VotesSelect (Poll_id poll) (user_id u),
                    VotesUpdate (votes_id v) B])
          \<and> userVote s2 = Some B"
proof -
  let ?p = "Poll_id poll" and ?u = "user_id u" and ?n = "length (requests w)"
  obtain s1 w1 where r1: "handleVote (Some u) poll A (s, w) = (s1, w1)" by force
  obtain s2 w2 where r2: "handleVote (Some u) poll B (s1, w1) = (s2, w2)" by force
  from calm have c0: "\<not> outage (env w ?n)"
    and c1: "\<not> outage (env w (Suc ?n))" "auth_uid (env w (Suc ?n)) = Some ?u"
    and c2: "\<not> outage (env w (Suc (Suc ?n)))"
    and c3: "\<not> outage (env w (Suc (Suc (Suc ?n))))" "auth_uid (env w (Suc (Suc (Suc ?n)))) = Some ?u"
    using calm [rule_format, of 0] calm [rule_format, of 1] calm [rule_format, of 2]
      calm [rule_format, of 3]
    by (simp_all add: numeral_2_eq_2 numeral_3_eq_3)
  note first = handleVote_recorded [OF uniq idle c0 c1 A poll fresh, unfolded r1 fst_conv snd_conv]
  from first have rows1: "votes_of ?p ?u (db w1) =
       (case votes_of ?p ?u (db w) of
          [] \<Rightarrow> [\<lparr>votes_id = gen_random_uuid (env w (Suc ?n)) 0, votes_poll_id = ?p,
                   votes_option_id = A, votes_user_id = ?u, votes_created_at = now (env w (Suc ?n))\<rparr>]
        | v # _ \<Rightarrow> [v\<lparr>votes_option_id := A\<rparr>])"
    and reqs1: "requests w1 = requests w @
           [VotesSelect ?p ?u,
            (case votes_of ?p ?u (db w) of
               [] \<Rightarrow> VotesInsert ?p A ?u | v # _ \<Rightarrow> VotesUpdate (votes_id v) A)]"
    and s1: "s1 = s\<lparr>userVote := Some A\<rparr>"
    and env1: "env w1 = env w"
    and same1: "polls (db w1) = polls (db w)" "poll_options (db w1) = poll_options (db w)"
    by simp_all
  from rows1 obtain v1 where v1: "votes_of ?p ?u (db w1) = [v1]"
    by (cases "votes_of ?p ?u (db w)") simp_all
  have uniq1: "votes_unique (db w1)"
    using votes_unique_handleVote [OF uniq, of "Some u" poll A s] by (simp add: r1)
  have len1: "length (requests w1) = Suc (Suc ?n)" by (simp add: reqs1)
  have idle1: "\<not> isVoting s1" using idle by (simp add: s1)
  have second: "votes_of ?p ?u (db w2) = [v1\<lparr>votes_option_id := B\<rparr>]
      \<and> requests w2 = requests w1 @ [VotesSelect ?p ?u, VotesUpdate (votes_id v1) B]
      \<and> s2 = s1\<lparr>userVote := Some B\<rparr>"
    using handleVote_recorded [of w1 s1 u B poll, unfolded r2 fst_conv snd_conv]
      uniq1 idle1 c2 c3 B poll
    by (simp add: len1 env1 same1 v1)
  have "votes_of ?p ?u (db w2) = [v1\<lparr>votes_option_id := B\<rparr>]
      \<and> votes_option_id (v1\<lparr>votes_option_id := B\<rparr>) = B
      \<and> requests w2 = requests w @
           [VotesSelect ?p ?u,
            (case votes_of ?p ?u (db w) of
               [] \<Rightarrow> VotesInsert ?p A ?u | v0 # _ \<Rightarrow> VotesUpdate (votes_id v0) A),
            VotesSelect ?p ?u, VotesUpdate (votes_id (v1\<lparr>votes_option_id := B\<rparr>)) B]"
    using second by (simp add: reqs1)
  then have "\<exists>v. votes_of ?p ?u (db w2) = [v] \<and> votes_option_id v = B
      \<and> requests w2 = requests w @
           [VotesSelect ?p ?u,
            (case votes_of ?p ?u (db w) of
               [] \<Rightarrow> VotesInsert ?p A ?u | v0 # _ \<Rightarrow> VotesUpdate (votes_id v0) A),
            VotesSelect ?p ?u, VotesUpdate (votes_id v) B]"
    by blast
  moreover have "userVote s2 = Some B" using second by simp
  ultimately show ?thesis by (simp add: r1 r2)
qed


theorem handleVote_revote_witness:
  "votes_unique (db example_world) \<and> \<not> isVoting example_card
   \<and> map votes_option_id
        (votes_of 1 7 (db (snd (handleVote (Some \<lparr>user_id = 7\<rparr>) example_poll 3
                                  (handleVote (Some \<lparr>user_id = 7\<rparr>) example_poll 2
                                     (example_card, example_world)))))) = [3]"
  using handleVote_revote [of example_world example_card "\<lparr>user_id = 7\<rparr>" 2 3 example_poll]
  by (auto simp: split_beta votes_unique_def votes_of_def example_world_def example_database_def
      example_card_def example_poll_def calm_def)

section \<open>Deleting a poll\<close>

















section \<open>Listing the polls\<close>

lemma foldl_add_counts:
  "foldl (\<lambda>sum option. sum + f option) a xs = a + sum_list (map f xs)"
  for f :: "PollOption \<Rightarrow> nat"
  by (induction xs arbitrary: a) simp_all

lemma totalVotes_sum:
  "totalVotes P = sum_list (map (\<lambda>x. or_zero (PollOption_vote_count x)) (Poll_poll_options P))"
  by (simp add: totalVotes_def foldl_add_counts)

text \<open>
  The count requests of a listing: what they leave in the world, what each option
  carries, and the polls of the listing as one run over all options.
\<close>

lemma count_options_world:
  "snd (count_options xs w) = w\<lparr>requests := requests w @ map (\<lambda>x. VotesCount (poll_options_id x)) xs\<rparr>"
  by (induction xs arbitrary: w) (simp_all add: split_beta query_def)

lemma count_options_append:
  "count_options (xs @ ys) w =
     (fst (count_options xs w) @ fst (count_options ys (snd (count_options xs w))),
      snd (count_options ys (snd (count_options xs w))))"
  by (induction xs arbitrary: w) (simp_all add: split_beta)

lemma count_options_fields:
  "map (\<lambda>x. (PollOption_id x, PollOption_option_text x)) (fst (count_options xs w))
     = map (\<lambda>x. (poll_options_id x, poll_options_option_text x)) xs"
  by (induction xs arbitrary: w) (simp_all add: split_beta)

lemma count_options_nth:
  "j < length xs \<Longrightarrow>
   PollOption_vote_count (fst (count_options xs w) ! j) =
     Some (if outage (env w (length (requests w) + j)) then 0
           else length (filter (\<lambda>v. votes_option_id v = poll_options_id (xs ! j)) (votes (db w))))"
proof (induction xs arbitrary: w j)
  case Nil
  then show ?case by simp
next
  case (Cons x xs)
  show ?case
  proof (cases j)
    case 0
    then show ?thesis by (simp add: split_beta votes_count_def)
  next
    case (Suc i)
    with Cons.prems have "i < length xs" by simp
    from Cons.IH [OF this, of "snd (query (VotesCount (poll_options_id x))
                                     (\<lambda>e. votes_count e (poll_options_id x)) w)"] Suc
    show ?thesis by (simp add: split_beta)
  qed
qed

lemma count_polls_flat:
  "concat (map Poll_poll_options (fst (count_polls qs w))) = fst (count_options (concat (map snd qs)) w)
   \<and> snd (count_polls qs w) = snd (count_options (concat (map snd qs)) w)"
  by (induction qs arbitrary: w) (auto simp: split_beta count_options_append)

lemma count_polls_fields:
  "map (\<lambda>P. (Poll_id P, Poll_title P, Poll_created_at P, Poll_user_id P,
              map (\<lambda>x. (PollOption_id x, PollOption_option_text x)) (Poll_poll_options P)))
       (fst (count_polls qs w))
     = map (\<lambda>(q, xs). (polls_id q, polls_title q, polls_created_at q, polls_user_id q,
                        map (\<lambda>x. (poll_options_id x, poll_options_option_text x)) xs)) qs"
  by (induction qs arbitrary: w) (auto simp: split_beta count_options_fields)


lemma count_options_ids:
  "map PollOption_id (fst (count_options xs w)) = map poll_options_id xs"
  using count_options_fields [of xs w, THEN arg_cong, of "map fst"] by (simp add: comp_def)

lemma count_options_length: "length (fst (count_options xs w)) = length xs"
  using count_options_ids [of xs w, THEN arg_cong, of length] by simp

text \<open>
  Claim C8, as the code has it. \<^verbatim>\<open>fetchPolls\<close> never changes the store. When its
  select of the polls is lost, it shows the notice "Error loading polls" and leaves the
  listing as it was. Otherwise the dashboard lists every poll of the store, newest
  first, each with the options that reference it; the requests issued are the select
  followed by one count per listed option, in the order of the listing; an option
  carries the number of vote rows that reference it when its count is answered, and 0
  when its count is lost, for which no notice is shown; and the total a card shows for a
  poll is the sum of the counts its options carry.
\<close>

theorem fetchPolls_tally:
  "let n = length (requests w);
       (s', w') = fetchPolls (s, w);
       listed = Dashboard_polls s';
       flat = concat (map Poll_poll_options listed)
   in db w' = db w
    \<and> (outage (env w n) \<longrightarrow>
          s' = s\<lparr>Dashboard_isLoading := False\<rparr>
        \<and> requests w' = requests w @ [PollsSelect]
        \<and> toasts w' = toasts w @ [Toast ''Error loading polls'' (Message NetworkError)
                                     (Some ''destructive'')])
    \<and> (\<not> outage (env w n) \<longrightarrow>
          mset (map (\<lambda>P. (Poll_id P, Poll_title P, Poll_created_at P, Poll_user_id P)) listed)
            = mset (map (\<lambda>q. (polls_id q, polls_title q, polls_created_at q, polls_user_id q))
                     (polls (db w)))
        \<and> sorted_wrt (\<lambda>P Q. Poll_created_at Q \<le> Poll_created_at P) listed
        \<and> (\<forall>P \<in> set listed.
              map (\<lambda>x. (PollOption_id x, PollOption_option_text x)) (Poll_poll_options P)
                = map (\<lambda>x. (poll_options_id x, poll_options_option_text x))
                    (filter (\<lambda>x. poll_options_poll_id x = Poll_id P) (poll_options (db w)))
            \<and> totalVotes P
                = sum_list (map (\<lambda>x. or_zero (PollOption_vote_count x)) (Poll_poll_options P)))
        \<and> requests w' = requests w @ PollsSelect # map (\<lambda>x. VotesCount (PollOption_id x)) flat
        \<and> (\<forall>j < length flat.
              PollOption_vote_count (flat ! j)
                = Some (if outage (env w (n + 1 + j)) then 0
                        else length (filter (\<lambda>v. votes_option_id v = PollOption_id (flat ! j))
                                       (votes (db w)))))
        \<and> toasts w' = toasts w
        \<and> Dashboard_isLoading s' = False)"
proof -
  let ?n = "length (requests w)"
  obtain s' w' where r: "fetchPolls (s, w) = (s', w')" by force
  let ?listed = "Dashboard_polls s'"
  let ?flat = "concat (map Poll_poll_options ?listed)"
  let ?w1 = "w\<lparr>requests := requests w @ [PollsSelect]\<rparr>"
  let ?sorted = "rev (sort_key polls_created_at (polls (db w)))"
  let ?qs = "map (\<lambda>q. (q, filter (\<lambda>x. poll_options_poll_id x = polls_id q) (poll_options (db w)))) ?sorted"
  let ?xs = "concat (map snd ?qs)"
  have lost: "s' = s\<lparr>Dashboard_isLoading := False\<rparr>
        \<and> requests w' = requests w @ [PollsSelect]
        \<and> toasts w' = toasts w @ [Toast ''Error loading polls'' (Message NetworkError)
                                     (Some ''destructive'')]"
    if "outage (env w ?n)"
    using that r by (auto simp: fetchPolls_def query_def polls_select_def toast_def)
  have lost_db: "db w' = db w" if "outage (env w ?n)"
    using that r by (auto simp: fetchPolls_def query_def polls_select_def toast_def)
  have answered: "s' = s\<lparr>Dashboard_polls := fst (count_polls ?qs ?w1), Dashboard_isLoading := False\<rparr>
        \<and> w' = snd (count_polls ?qs ?w1)"
    if "\<not> outage (env w ?n)"
    using that r by (auto simp: fetchPolls_def query_def polls_select_def split_beta)
  have good: "mset (map (\<lambda>P. (Poll_id P, Poll_title P, Poll_created_at P, Poll_user_id P)) ?listed)
            = mset (map (\<lambda>q. (polls_id q, polls_title q, polls_created_at q, polls_user_id q))
                     (polls (db w)))
        \<and> sorted_wrt (\<lambda>P Q. Poll_created_at Q \<le> Poll_created_at P) ?listed
        \<and> (\<forall>P \<in> set ?listed.
              map (\<lambda>x. (PollOption_id x, PollOption_option_text x)) (Poll_poll_options P)
                = map (\<lambda>x. (poll_options_id x, poll_options_option_text x))
                    (filter (\<lambda>x. poll_options_poll_id x = Poll_id P) (poll_options (db w)))
            \<and> totalVotes P
                = sum_list (map (\<lambda>x. or_zero (PollOption_vote_count x)) (Poll_poll_options P)))
        \<and> requests w' = requests w @ PollsSelect # map (\<lambda>x. VotesCount (PollOption_id x)) ?flat
        \<and> (\<forall>j < length ?flat.
              PollOption_vote_count (?flat ! j)
                = Some (if outage (env w (?n + 1 + j)) then 0
                        else length (filter (\<lambda>v. votes_option_id v = PollOption_id (?flat ! j))
                                       (votes (db w)))))
        \<and> toasts w' = toasts w
        \<and> Dashboard_isLoading s' = False"
      and good_db: "db w' = db w"
    if ok: "\<not> outage (env w ?n)"
  proof -
    from answered [OF ok] have listed: "?listed = fst (count_polls ?qs ?w1)"
      and w': "w' = snd (count_polls ?qs ?w1)" and loading: "Dashboard_isLoading s' = False"
      by simp_all
    note fields = count_polls_fields [of ?qs ?w1, folded listed]
    have heads: "map (\<lambda>P. (Poll_id P, Poll_title P, Poll_created_at P, Poll_user_id P)) ?listed
        = map (\<lambda>q. (polls_id q, polls_title q, polls_created_at q, polls_user_id q)) ?sorted"
      using fields [THEN arg_cong, of "map (\<lambda>(a, b, c, d, e). (a, b, c, d))"]
      by (simp add: comp_def split_beta)
    have 1: "mset (map (\<lambda>P. (Poll_id P, Poll_title P, Poll_created_at P, Poll_user_id P)) ?listed)
            = mset (map (\<lambda>q. (polls_id q, polls_title q, polls_created_at q, polls_user_id q))
                     (polls (db w)))"
      unfolding heads by simp
    have "map Poll_created_at ?listed = map polls_created_at ?sorted"
      using heads [THEN arg_cong, of "map (\<lambda>(a, b, c, d). c)"] by (simp add: comp_def)
    moreover have "sorted_wrt (\<lambda>a b. b \<le> a) (map polls_created_at ?sorted)"
    proof -
      have "sorted (map polls_created_at (sort_key polls_created_at (polls (db w))))"
        by (rule sorted_sort_key)
      then show ?thesis by (simp add: sorted_wrt_rev rev_map [symmetric] del: sorted_sort_key)
    qed
    ultimately have "sorted_wrt (\<lambda>a b. b \<le> a) (map Poll_created_at ?listed)" by simp
    then have 2: "sorted_wrt (\<lambda>P Q. Poll_created_at Q \<le> Poll_created_at P) ?listed"
      by (simp add: sorted_wrt_map)
    have 3: "map (\<lambda>x. (PollOption_id x, PollOption_option_text x)) (Poll_poll_options P)
                = map (\<lambda>x. (poll_options_id x, poll_options_option_text x))
                    (filter (\<lambda>x. poll_options_poll_id x = Poll_id P) (poll_options (db w)))"
      if "P \<in> set ?listed" for P
    proof -
      from that have "(Poll_id P, Poll_title P, Poll_created_at P, Poll_user_id P,
              map (\<lambda>x. (PollOption_id x, PollOption_option_text x)) (Poll_poll_options P))
          \<in> set (map (\<lambda>P. (Poll_id P, Poll_title P, Poll_created_at P, Poll_user_id P,
              map (\<lambda>x. (PollOption_id x, PollOption_option_text x)) (Poll_poll_options P))) ?listed)"
        by simp
      then show ?thesis unfolding fields by auto
    qed
    have flat: "?flat = fst (count_options ?xs ?w1)" and w'': "w' = snd (count_options ?xs ?w1)"
      using count_polls_flat [of ?qs ?w1] by (simp_all add: listed w')
    have ids: "map PollOption_id ?flat = map poll_options_id ?xs"
      unfolding flat by (rule count_options_ids)
    have len: "length ?flat = length ?xs" unfolding flat by (rule count_options_length)
    have 4: "requests w' = requests w @ PollsSelect # map (\<lambda>x. VotesCount (PollOption_id x)) ?flat"
      using ids [THEN arg_cong, of "map VotesCount"]
      by (simp add: w'' count_options_world comp_def)
    have 5: "PollOption_vote_count (?flat ! j)
                = Some (if outage (env w (?n + 1 + j)) then 0
                        else length (filter (\<lambda>v. votes_option_id v = PollOption_id (?flat ! j))
                                       (votes (db w))))"
      if "j < length ?flat" for j
    proof -
      from that len have j: "j < length ?xs" by simp
      have "map PollOption_id ?flat ! j = map poll_options_id ?xs ! j" by (simp only: ids)
      with that j have "PollOption_id (?flat ! j) = poll_options_id (?xs ! j)" by simp
      moreover have "PollOption_vote_count (?flat ! j)
          = Some (if outage (env w (?n + 1 + j)) then 0
                  else length (filter (\<lambda>v. votes_option_id v = poll_options_id (?xs ! j))
                                 (votes (db w))))"
        using count_options_nth [OF j, of ?w1] unfolding flat by simp
      ultimately show ?thesis by (simp only:)
    qed
    have 6: "toasts w' = toasts w"
      by (simp add: w'' count_options_world)
    show "db w' = db w"
      by (simp add: w'' count_options_world)
    show "mset (map (\<lambda>P. (Poll_id P, Poll_title P, Poll_created_at P, Poll_user_id P)) ?listed)
            = mset (map (\<lambda>q. (polls_id q, polls_title q, polls_created_at q, polls_user_id q))
                     (polls (db w)))
        \<and> sorted_wrt (\<lambda>P Q. Poll_created_at Q \<le> Poll_created_at P) ?listed
        \<and> (\<forall>P \<in> set ?listed.
              map (\<lambda>x. (PollOption_id x, PollOption_option_text x)) (Poll_poll_options P)
                = map (\<lambda>x. (poll_options_id x, poll_options_option_text x))
                    (filter (\<lambda>x. poll_options_poll_id x = Poll_id P) (poll_options (db w)))
            \<and> totalVotes P
                = sum_list (map (\<lambda>x. or_zero (PollOption_vote_count x)) (Poll_poll_options P)))
        \<and> requests w' = requests w @ PollsSelect # map (\<lambda>x. VotesCount (PollOption_id x)) ?flat
        \<and> (\<forall>j < length ?flat.
              PollOption_vote_count (?flat ! j)
                = Some (if outage (env w (?n + 1 + j)) then 0
                        else length (filter (\<lambda>v. votes_option_id v = PollOption_id (?flat ! j))
                                       (votes (db w)))))
        \<and> toasts w' = toasts w
        \<and> Dashboard_isLoading s' = False"
      by (intro conjI ballI allI impI)
        (rule 1 2 4 6 loading totalVotes_sum | rule 3 5, assumption)+
  qed
  have same: "db w' = db w" using lost_db good_db by blast
  show ?thesis
    unfolding Let_def r prod.case
    by (rule conjI, rule same, rule conjI, rule impI, erule lost, rule impI, erule good)
qed


theorem fetchPolls_tally_witness:
  "map Poll_id (Dashboard_polls (fst (fetchPolls
       (example_dashboard, example_world\<lparr>db := example_two_polls, env := stormy 2 7\<rparr>)))) = [10, 1]
   \<and> map PollOption_vote_count (concat (map Poll_poll_options (Dashboard_polls (fst (fetchPolls
       (example_dashboard, example_world\<lparr>db := example_two_polls, env := stormy 2 7\<rparr>))))))
       = [Some 1, Some 0, Some 1]
   \<and> map totalVotes (Dashboard_polls (fst (fetchPolls
       (example_dashboard, example_world\<lparr>db := example_two_polls, env := stormy 2 7\<rparr>)))) = [1, 1]
   \<and> requests (snd (fetchPolls
       (example_dashboard, example_world\<lparr>db := example_two_polls, env := stormy 2 7\<rparr>)))
       = [PollsSelect, VotesCount 11, VotesCount 2, VotesCount 3]"
  using fetchPolls_tally [of "example_world\<lparr>db := example_two_polls, env := stormy 2 7\<rparr>"
      example_dashboard]
  by (simp add: example_world_def example_two_polls_def example_database_def example_votes_def
      calm_def stormy_def fetchPolls_def query_def polls_select_def votes_count_def totalVotes_def
      or_zero_def)

text \<open>
  The count for option 2 is lost: the listing shows 0 for it, two vote rows reference
  it, and no notice is shown.
\<close>

theorem fetchPolls_lost_count_counterexample:
  "map PollOption_vote_count (concat (map Poll_poll_options (Dashboard_polls (fst (fetchPolls
       (example_dashboard,
        example_world\<lparr>db := example_database\<lparr>votes := example_votes\<rparr>, env := stormy 1 7\<rparr>))))))
       = [Some 0, Some 1]
   \<and> votes_count (calm 7 0) 2 (example_database\<lparr>votes := example_votes\<rparr>) = Inr 2
   \<and> toasts (snd (fetchPolls
       (example_dashboard,
        example_world\<lparr>db := example_database\<lparr>votes := example_votes\<rparr>, env := stormy 1 7\<rparr>))) = []"
  by (simp add: example_world_def example_database_def example_votes_def
      calm_def stormy_def fetchPolls_def query_def polls_select_def votes_count_def)

section \<open>The percentage on the card\<close>

lemma bitlen_powi:
  assumes "0 < a"
  shows "(2::rat) powi (bitlen a - 1) \<le> of_int a" "of_int a < (2::rat) powi bitlen a"
proof -
  from bitlen_bounds [OF assms] have lo: "2 ^ nat (bitlen a - 1) \<le> a" and hi: "a < 2 ^ nat (bitlen a)"
    by simp_all
  from assms have pos: "1 \<le> bitlen a" by (auto simp: bitlen_alt_def)
  from lo have "(of_int (2 ^ nat (bitlen a - 1)) :: rat) \<le> of_int a" by (simp only: of_int_le_iff)
  then show "(2::rat) powi (bitlen a - 1) \<le> of_int a"
    using pos by (simp add: power_int_def)
  from hi have "(of_int a :: rat) < of_int (2 ^ nat (bitlen a))" by (simp only: of_int_less_iff)
  then show "of_int a < (2::rat) powi bitlen a"
    using pos by (simp add: power_int_def)
qed

lemma floor_log2_bounds:
  assumes "0 < x"
  shows "2 powi floor_log2 x \<le> x" "x < 2 powi (floor_log2 x + 1)"
proof -
  obtain a b where q: "quotient_of x = (a, b)" by force
  then have b: "0 < b" by (rule quotient_of_denom_pos)
  from q have x: "x = of_int a / of_int b" by (rule quotient_of_div)
  with assms b have a: "0 < a" by (simp add: zero_less_divide_iff)
  let ?d = "bitlen a - bitlen b"
  note A = bitlen_powi [OF a] and B = bitlen_powi [OF b]
  have bpos: "(0::rat) < of_int b" using b by simp
  have "x < 2 powi bitlen a / 2 powi (bitlen b - 1)"
    unfolding x using A(2) B(1) bpos a
    by (intro frac_less) (auto intro: order_less_le_trans)
  also have "\<dots> = 2 powi (?d + 1)"
    by (simp add: power_int_diff power_int_add)
  finally have up: "x < 2 powi (?d + 1)" .
  have "2 powi (bitlen a - 1) / 2 powi bitlen b \<le> x"
    unfolding x using A(1) B(2) bpos a
    by (intro frac_le) auto
  moreover have "2 powi (bitlen a - 1) / (2::rat) powi bitlen b = 2 powi (?d - 1)"
    by (simp add: power_int_diff)
  ultimately have low: "2 powi (?d - 1) \<le> x" by simp
  show "2 powi floor_log2 x \<le> x"
    using low by (simp add: floor_log2_def q Let_def)
  show "x < 2 powi (floor_log2 x + 1)"
    using up by (auto simp: floor_log2_def q Let_def not_le)
qed

lemma round_ties_even_error: "\<bar>of_int (round_ties_even m) - m\<bar> \<le> 1 / 2"
proof -
  define r where "r = m - of_int \<lfloor>m\<rfloor>"
  have r: "0 \<le> r" "r < 1" unfolding r_def by linarith+
  consider "r < 1 / 2" | "1 / 2 < r" | "r = 1 / 2" by linarith
  then have "of_int (round_ties_even m) - m = - r \<or> of_int (round_ties_even m) - m = 1 - r"
    by cases (auto simp: round_ties_even_def r_def Let_def)
  moreover have "of_int (round_ties_even m) - m = 1 - r \<Longrightarrow> 1 / 2 \<le> r"
    by (auto simp: round_ties_even_def r_def Let_def split: if_splits)
  moreover have "of_int (round_ties_even m) - m = - r \<Longrightarrow> r \<le> 1 / 2"
    by (auto simp: round_ties_even_def r_def Let_def split: if_splits)
  ultimately show ?thesis using r by (auto simp: abs_if)
qed

lemma binary64_error:
  assumes "2 powi (- 1022) \<le> \<bar>x\<bar>"
  shows "\<bar>binary64 x - x\<bar> \<le> \<bar>x\<bar> / 2 ^ 53"
proof -
  have "(0::rat) < 2 powi (- 1022)" by simp
  with assms have pos: "0 < \<bar>x\<bar>" by linarith
  then have nz: "x \<noteq> 0" by simp
  let ?e = "floor_log2 \<bar>x\<bar>"
  note E = floor_log2_bounds [OF pos]
  have "- 1022 \<le> ?e"
  proof (rule ccontr)
    assume "\<not> - 1022 \<le> ?e"
    then have "?e + 1 \<le> - 1022" by simp
    then have "(2::rat) powi (?e + 1) \<le> 2 powi (- 1022)" by (intro power_int_increasing) simp_all
    with E(2) assms show False by linarith
  qed
  then have q: "max (?e - 52) (- 1074) = ?e - 52" by simp
  let ?q = "?e - 52"
  let ?m = "x / 2 powi ?q"
  have p: "(0::rat) < 2 powi ?q" by simp
  have "binary64 x - x = (of_int (round_ties_even ?m) - ?m) * 2 powi ?q"
    using nz by (simp add: binary64_def q Let_def algebra_simps)
  then have "\<bar>binary64 x - x\<bar> = \<bar>of_int (round_ties_even ?m) - ?m\<bar> * 2 powi ?q"
    by (simp add: abs_mult)
  also have "\<dots> \<le> 1 / 2 * 2 powi ?q"
    using round_ties_even_error [of ?m] by (intro mult_right_mono) simp_all
  also have "\<dots> = 2 powi ?e / 2 ^ 53"
  proof -
    have "(2::rat) powi ?e = 2 powi (?q + 52)" by simp
    also have "\<dots> = 2 powi ?q * 2 ^ 52" by (subst power_int_add) simp_all
    finally show ?thesis by simp
  qed
  also have "\<dots> \<le> \<bar>x\<bar> / 2 ^ 53" using E(1) by (simp add: divide_right_mono)
  finally show ?thesis .
qed

lemma binary64_0 [simp]: "binary64 0 = 0"
  by (simp add: binary64_def)

lemma count_le_totalVotes:
  "option \<in> set (Poll_poll_options poll) \<Longrightarrow> or_zero (PollOption_vote_count option) \<le> totalVotes poll"
  by (simp add: totalVotes_def foldl_add_counts member_le_sum_list)

lemma binary64_normal_range: "(2::rat) powi (- 1022) \<le> 1 / 2 ^ 54"
proof -
  have "(2::rat) ^ 54 \<le> 2 ^ 1022" by (rule power_increasing) simp_all
  then have "1 / (2::rat) ^ 1022 \<le> 1 / 2 ^ 54" by (intro divide_left_mono) simp_all
  then show ?thesis by (simp only: power_int_minus_divide power_int_numeral)
qed

lemma toFixed1_0: "toFixed1 0 = ''0.0''"
  by code_simp

lemma percentage_error:
  fixes c T :: nat
  assumes "c \<le> T" "0 < T" "T < 2 ^ 53"
  defines "x \<equiv> (of_nat c :: rat) / of_nat T"
  shows "\<bar>binary64 (binary64 x * 100) - x * 100\<bar> \<le> x * 100 / 2 ^ 51"
proof (cases "c = 0")
  case True
  then show ?thesis by (simp add: x_def)
next
  case False
  have T: "(0::rat) < of_nat T" using assms(2) by simp
  have "int T < 2 ^ 53" using assms(3) by (metis of_nat_less_iff of_nat_numeral of_nat_power)
  then have T53: "(of_nat T :: rat) \<le> 2 ^ 53"
    by (metis less_imp_le of_int_le_iff of_int_numeral of_int_of_nat_eq of_int_power)
  have "1 / 2 ^ 53 \<le> 1 / (of_nat T :: rat)"
    using T T53 by (intro divide_left_mono) simp_all
  also have "\<dots> \<le> x"
    unfolding x_def using False T by (intro divide_right_mono) simp_all
  finally have x: "1 / 2 ^ 53 \<le> x" .
  have "(0::rat) < 1 / 2 ^ 53" by simp
  with x have xpos: "0 < x" by linarith
  have "(1::rat) / 2 ^ 54 \<le> 1 / 2 ^ 53" by simp
  with binary64_normal_range x xpos have "2 powi (- 1022) \<le> \<bar>x\<bar>" by linarith
  from binary64_error [OF this] xpos have e1: "\<bar>binary64 x - x\<bar> \<le> x / 2 ^ 53" by simp
  define y where "y = binary64 x"
  define d where "d = x / 2 ^ 53"
  have d: "0 < d" "d \<le> x / 2" unfolding d_def using xpos by simp_all
  have y: "x - d \<le> y" "y \<le> x + d"
    using e1 unfolding y_def d_def by linarith+
  have "1 / 2 ^ 54 \<le> x / 2" using x by simp
  with y d have ylow: "1 / 2 ^ 54 \<le> y" by linarith
  have "(0::rat) < 1 / 2 ^ 54" by simp
  with ylow have ypos: "0 < y" by linarith
  have "2 powi (- 1022) \<le> \<bar>y * 100\<bar>" using binary64_normal_range ylow ypos by simp
  from binary64_error [OF this] ypos have e2: "\<bar>binary64 (y * 100) - y * 100\<bar> \<le> y * 100 / 2 ^ 53"
    by simp
  have "y * 100 / 2 ^ 53 \<le> (x + d) * 100 / 2 ^ 53"
    using y(2) by (simp add: divide_right_mono)
  with e2 have e3: "\<bar>binary64 (y * 100) - y * 100\<bar> \<le> (x + d) * 100 / 2 ^ 53" by linarith
  have "\<bar>binary64 (y * 100) - x * 100\<bar> \<le> (x + d) * 100 / 2 ^ 53 + d * 100"
    using e3 y by linarith
  also have "\<dots> \<le> x * 100 / 2 ^ 51"
    unfolding d_def using xpos by (simp add: field_simps)
  finally show ?thesis unfolding y_def .
qed


lemma example_poll_shown:
  "totalVotes example_poll = 4
   \<and> map (percentage example_poll) (Poll_poll_options example_poll) = [75, 25]
   \<and> map (shown example_poll) (Poll_poll_options example_poll) = [''75.0%'', ''25.0%'']"
  by code_simp

text \<open>A poll without votes, and one with counts 1 and 2.\<close>

lemma no_votes_shown:
  "map (shown (example_poll\<lparr>Poll_poll_options :=
          map (\<lambda>x. x\<lparr>PollOption_vote_count := None\<rparr>) (Poll_poll_options example_poll)\<rparr>))
       (Poll_poll_options example_poll) = [''0.0%'', ''0.0%'']"
  by code_simp

lemma thirds_shown:
  "map (shown (example_poll\<lparr>Poll_poll_options :=
          map (\<lambda>x. x\<lparr>PollOption_vote_count := Some (PollOption_id x - 1)\<rparr>) (Poll_poll_options example_poll)\<rparr>))
       (map (\<lambda>x. x\<lparr>PollOption_vote_count := Some (PollOption_id x - 1)\<rparr>) (Poll_poll_options example_poll))
     = [''33.3%'', ''66.7%'']"
  by code_simp

text \<open>
  Claim C3. For an option of the poll a card shows: the total of the card is the sum of
  the counts of the poll's options (an absent count is zero). When the total is zero the
  percentage is 0 and the card shows \<^verbatim>\<open>0.0%\<close>; nothing is divided. Otherwise the
  percentage is count / total * 100 in the arithmetic of the language, which for totals
  below \<open>2\<^sup>5\<^sup>3\<close> differs from the exact quotient by at most one part in \<open>2\<^sup>5\<^sup>1\<close>; the card
  shows it rounded to one decimal. Counts 3 and 1 give the total 4 and the texts
  \<^verbatim>\<open>75.0%\<close> and \<^verbatim>\<open>25.0%\<close>.
\<close>

theorem PollCard_percentage:
  assumes "option \<in> set (Poll_poll_options poll)"
  shows "totalVotes poll = sum_list (map (\<lambda>x. or_zero (PollOption_vote_count x)) (Poll_poll_options poll))
       \<and> (totalVotes poll = 0 \<longrightarrow> percentage poll option = 0 \<and> shown poll option = ''0.0%'')
       \<and> (0 < totalVotes poll \<longrightarrow>
            percentage poll option =
              binary64 (binary64 (of_nat (or_zero (PollOption_vote_count option)) / of_nat (totalVotes poll))
                        * 100))
       \<and> (0 < totalVotes poll \<and> totalVotes poll < 2 ^ 53 \<longrightarrow>
            \<bar>percentage poll option
               - of_nat (or_zero (PollOption_vote_count option)) / of_nat (totalVotes poll) * 100\<bar>
              \<le> of_nat (or_zero (PollOption_vote_count option)) / of_nat (totalVotes poll) * 100 / 2 ^ 51)
       \<and> totalVotes example_poll = 4
       \<and> map (shown example_poll) (Poll_poll_options example_poll) = [''75.0%'', ''25.0%'']"
proof (intro conjI impI)
  show "totalVotes poll = sum_list (map (\<lambda>x. or_zero (PollOption_vote_count x)) (Poll_poll_options poll))"
    by (simp add: totalVotes_def foldl_add_counts)
next
  assume "totalVotes poll = 0"
  then show "percentage poll option = 0" by (simp add: percentage_def)
next
  assume "totalVotes poll = 0"
  then show "shown poll option = ''0.0%''" by (simp add: shown_def percentage_def toFixed1_0)
next
  assume "0 < totalVotes poll"
  then show "percentage poll option =
      binary64 (binary64 (of_nat (or_zero (PollOption_vote_count option)) / of_nat (totalVotes poll)) * 100)"
    by (simp add: percentage_def)
next
  assume T: "0 < totalVotes poll \<and> totalVotes poll < 2 ^ 53"
  from percentage_error [OF count_le_totalVotes [OF assms]] T
  show "\<bar>percentage poll option
          - of_nat (or_zero (PollOption_vote_count option)) / of_nat (totalVotes poll) * 100\<bar>
        \<le> of_nat (or_zero (PollOption_vote_count option)) / of_nat (totalVotes poll) * 100 / 2 ^ 51"
    by (simp add: percentage_def)
next
  show "totalVotes example_poll = 4"
    and "map (shown example_poll) (Poll_poll_options example_poll) = [''75.0%'', ''25.0%'']"
    using example_poll_shown by simp_all
qed

theorem PollCard_percentage_witness:
  "\<lparr>PollOption_id = 2, PollOption_option_text = js ''Tea'', PollOption_vote_count = Some 3\<rparr>
     \<in> set (Poll_poll_options example_poll)
   \<and> totalVotes example_poll = 4
   \<and> percentage example_poll
        \<lparr>PollOption_id = 2, PollOption_option_text = js ''Tea'', PollOption_vote_count = Some 3\<rparr> = 75
   \<and> shown example_poll
        \<lparr>PollOption_id = 2, PollOption_option_text = js ''Tea'', PollOption_vote_count = Some 3\<rparr> = ''75.0%''"
  using PollCard_percentage
    [of "\<lparr>PollOption_id = 2, PollOption_option_text = js ''Tea'', PollOption_vote_count = Some 3\<rparr>"
        example_poll]
    example_poll_shown
  by (simp add: example_poll_def)

section \<open>Opening a recovery link\<close>

text \<open>
  What holds of \<^verbatim>\<open>init\<close>: an expired link never leads to a session exchange; it
  leads to the notice and the landing route when the description can be decoded; and
  a link without both tokens leads to the landing route without a session exchange.
\<close>

lemma init_expired_no_session_exchange:
  "get hashParams ''error'' = Some (js ''access_denied'') \<Longrightarrow>
   get hashParams ''error_code'' = Some (js ''otp_expired'') \<Longrightarrow>
   requests (snd (init hashParams w)) = requests w"
  by (simp add: init_def Let_def split: sum.splits option.splits)

lemma init_expired_redirects:
  "get hashParams ''error'' = Some (js ''access_denied'') \<Longrightarrow>
   get hashParams ''error_code'' = Some (js ''otp_expired'') \<Longrightarrow>
   decodeURIComponent
     (case get hashParams ''error_description'' of
        None \<Rightarrow> js ''Reset link is invalid or expired.''
      | Some d \<Rightarrow> if d = [] then js ''Reset link is invalid or expired.'' else d) = Inr decoded \<Longrightarrow>
   init hashParams w =
     (Fulfilled (),
      navigate ''/'' (toast (Toast ''Link expired'' (Decoded decoded) (Some ''destructive'')) w))"
  by (simp add: init_def Let_def)

lemma init_missing_tokens:
  "\<not> (get hashParams ''error'' = Some (js ''access_denied'')
      \<and> get hashParams ''error_code'' = Some (js ''otp_expired'')) \<Longrightarrow>
   get hashParams ''access_token'' \<in> {None, Some []}
     \<or> get hashParams ''refresh_token'' \<in> {None, Some []} \<Longrightarrow>
   init hashParams w =
     (Fulfilled (),
      navigate ''/'' (toast (Toast ''Invalid reset link''
                              (Text ''Missing credentials. Please request a new reset link.'')
                              (Some ''destructive'')) w))"
  by (auto simp: init_def Let_def split: option.splits)

text \<open>
  Claim C7. A visit with \<^verbatim>\<open>error=access_denied\<close> and \<^verbatim>\<open>error_code=otp_expired\<close> is
  to end on the landing route with a notice. The description of the error has been
  percent-decoded by \<^verbatim>\<open>URLSearchParams\<close> when \<^verbatim>\<open>init\<close> decodes it a second time:
  for the fragment \<^verbatim>\<open>#error=access_denied&error_code=otp_expired&error_description=%25\<close>
  the description is the one character \<^verbatim>\<open>%\<close>, \<^verbatim>\<open>decodeURIComponent\<close> throws, and
  \<^verbatim>\<open>init\<close> ends with neither notice nor navigation.
\<close>

theorem init_expired_malformed_description:
  "init [(js ''error'', js ''access_denied''), (js ''error_code'', js ''otp_expired''),
         (js ''error_description'', js ''%'')] w = (Rejected URIError, w)"
  by (simp add: init_def get_def js_def ParseHexOctet_def)

end
